theory Spec2Isabelle
  imports Main
begin

section \<open>YAML nodes, Python values and errors\<close>

text \<open>
  The builder of \<^verbatim>\<open>moulin/builders/yocto.py\<close> works on the node graph of PyYAML:
  a \<^verbatim>\<open>ScalarNode\<close> holds a string, a \<^verbatim>\<open>SequenceNode\<close> a list of nodes and a
  \<^verbatim>\<open>MappingNode\<close> a list of (key node, value node) pairs; every node carries its
  \<^verbatim>\<open>start_mark\<close>. Python is dynamically typed, so the attribute \<^verbatim>\<open>.value\<close> of a node is
  a string or a list, depending on the node: \<open>pyval\<close> keeps the three cases apart.
\<close>

datatype mark = Mark (line: nat) (column: nat)

datatype node =
    ScalarNode (start_mark: mark) string
  | SequenceNode (start_mark: mark) "node list"
  | MappingNode (start_mark: mark) "(node \<times> node) list"

datatype pyval = PStr string | PSeq "node list" | PMap "(node \<times> node) list"

fun node_value :: "node \<Rightarrow> pyval" where
  "node_value (ScalarNode m s) = PStr s"
| "node_value (SequenceNode m xs) = PSeq xs"
| "node_value (MappingNode m kvs) = PMap kvs"

text \<open>
  Every exception the code can raise is a value. \<open>YAMLProcessingError\<close> is the
  structural configuration error of \<^verbatim>\<open>yaml_helpers\<close> (message and source position);
  \<open>MissingFieldError\<close> names a mandatory key that is absent; the other four are
  Python's built-in exceptions raised by unguarded indexing, attribute access, calls
  and tuple unpacking.
\<close>

datatype error =
    YAMLProcessingError string mark
  | MissingFieldError string mark
  | IndexError
  | AttributeError
  | TypeError
  | ValueError

fun map_err :: "('a \<Rightarrow> error + 'b) \<Rightarrow> 'a list \<Rightarrow> error + 'b list" where
  "map_err f [] = Inr []"
| "map_err f (x # xs) =
     (case f x of
        Inl e \<Rightarrow> Inl e
      | Inr y \<Rightarrow> (case map_err f xs of Inl e \<Rightarrow> Inl e | Inr ys \<Rightarrow> Inr (y # ys)))"

section \<open>The Python library functions the builder calls\<close>

text \<open>\<^verbatim>\<open>s.replace(old, new)\<close> for a pattern of one character.\<close>

definition str_replace :: "char \<Rightarrow> string \<Rightarrow> string \<Rightarrow> string" where
  "str_replace old new s = concat (map (\<lambda>c. if c = old then new else [c]) s)"

text \<open>\<^verbatim>\<open>sep.join(xs)\<close> on strings.\<close>

fun str_join :: "string \<Rightarrow> string list \<Rightarrow> string" where
  "str_join sep [] = []"
| "str_join sep [x] = x"
| "str_join sep (x # y # zs) = x @ sep @ str_join sep (y # zs)"

text \<open>A value used where Python needs a \<^verbatim>\<open>str\<close>: anything else is a \<^verbatim>\<open>TypeError\<close>.\<close>

fun the_str :: "pyval \<Rightarrow> error + string" where
  "the_str (PStr s) = Inr s"
| "the_str (PSeq xs) = Inl TypeError"
| "the_str (PMap kvs) = Inl TypeError"

definition py_join :: "string \<Rightarrow> pyval list \<Rightarrow> error + string" where
  "py_join sep vs =
     (case map_err the_str vs of Inl e \<Rightarrow> Inl e | Inr ss \<Rightarrow> Inr (str_join sep ss))"

text \<open>
  \<^verbatim>\<open>[x.value for x in n.value]\<close>: iterating the value of a sequence node gives its
  nodes; iterating a non-empty string or a non-empty list of pairs gives objects with no
  attribute \<^verbatim>\<open>value\<close>.
\<close>

fun values_of :: "node \<Rightarrow> error + pyval list" where
  "values_of (SequenceNode m xs) = Inr (map node_value xs)"
| "values_of (ScalarNode m s) = (if s = [] then Inr [] else Inl AttributeError)"
| "values_of (MappingNode m kvs) = (if kvs = [] then Inr [] else Inl AttributeError)"

subsection \<open>posixpath\<close>

definition startswith_sep :: "string \<Rightarrow> bool" where
  "startswith_sep s = (case s of [] \<Rightarrow> False | c # cs \<Rightarrow> c = CHR ''/'')"

definition endswith_sep :: "string \<Rightarrow> bool" where
  "endswith_sep s = (case rev s of [] \<Rightarrow> False | c # cs \<Rightarrow> c = CHR ''/'')"

text \<open>One round of the loop of \<^verbatim>\<open>posixpath.join\<close>.\<close>

definition join_step :: "string \<Rightarrow> string \<Rightarrow> string" where
  "join_step path b =
     (if startswith_sep b then b
      else if path = [] \<or> endswith_sep path then path @ b
      else path @ ''/'' @ b)"

definition posixpath_join :: "string \<Rightarrow> string list \<Rightarrow> string" where
  "posixpath_join a p = foldl join_step a p"

text \<open>
  \<^verbatim>\<open>os.path.join(*vs)\<close> on Python values: no argument at all, or an argument that is
  not a string, is a \<^verbatim>\<open>TypeError\<close>.
\<close>

definition os_path_join :: "pyval list \<Rightarrow> error + string" where
  "os_path_join vs =
     (case map_err the_str vs of
        Inl e \<Rightarrow> Inl e
      | Inr [] \<Rightarrow> Inl TypeError
      | Inr (a # p) \<Rightarrow> Inr (posixpath_join a p))"

text \<open>\<^verbatim>\<open>s.split(sep)\<close> for a separator of one character.\<close>

fun str_split :: "char \<Rightarrow> string \<Rightarrow> string list" where
  "str_split sep [] = [ []]"
| "str_split sep (c # cs) =
     (if c = sep then [] # str_split sep cs
      else (case str_split sep cs of [] \<Rightarrow> [ [c]] | w # ws \<Rightarrow> (c # w) # ws))"

text \<open>
  \<^verbatim>\<open>posixpath.normpath\<close>: one or two leading slashes are kept (three or more count as
  one), empty and \<^verbatim>\<open>.\<close> components are dropped, and \<^verbatim>\<open>..\<close> removes the component
  before it where there is one.
\<close>

definition initial_slashes :: "string \<Rightarrow> nat" where
  "initial_slashes path =
     (if startswith_sep path then
        (if take 2 path = ''//'' \<and> take 3 path \<noteq> ''///'' then 2 else 1)
      else 0)"

definition norm_step :: "nat \<Rightarrow> string list \<Rightarrow> string \<Rightarrow> string list" where
  "norm_step initial new_comps part =
     (if part = [] \<or> part = ''.'' then new_comps
      else if part = ''..'' then
        (if (initial = 0 \<and> new_comps = []) \<or> (new_comps \<noteq> [] \<and> last new_comps = ''..'')
         then new_comps @ [part]
         else if new_comps \<noteq> [] then butlast new_comps
         else new_comps)
      else new_comps @ [part])"

definition normpath :: "string \<Rightarrow> string" where
  "normpath path =
     (if path = [] then ''.''
      else
        (let initial = initial_slashes path;
             comps = foldl (norm_step initial) [] (str_split (CHR ''/'') path);
             p = replicate initial (CHR ''/'') @ str_join ''/'' comps
         in if p = [] then ''.'' else p))"

text \<open>
  \<^verbatim>\<open>os.path.abspath\<close>; the process's working directory (\<^verbatim>\<open>os.getcwd()\<close>) is the first
  argument.
\<close>

definition abspath :: "string \<Rightarrow> string \<Rightarrow> string" where
  "abspath cwd path =
     (if startswith_sep path then normpath path else normpath (posixpath_join cwd [path]))"

subsection \<open>shlex\<close>

text \<open>
  \<^verbatim>\<open>shlex.quote\<close>: the characters that need no quoting are those outside
  \<^verbatim>\<open>[^\w@%+=:,./-]\<close> (ASCII); a string with any other character is wrapped in single
  quotes, each single quote inside becoming \<^verbatim>\<open>'"'"'\<close>.
\<close>

definition safe_chars :: string where
  "safe_chars =
     ''abcdefghijklmnopqrstuvwxyzABCDEFGHIJKLMNOPQRSTUVWXYZ0123456789_@%+=:,./-''"

definition find_unsafe :: "string \<Rightarrow> bool" where
  "find_unsafe s = list_ex (\<lambda>c. c \<notin> set safe_chars) s"

definition squote :: char where
  "squote = CHR 0x27"

definition dquote :: char where
  "dquote = CHR 0x22"

definition shlex_quote :: "string \<Rightarrow> string" where
  "shlex_quote s =
     (if s = [] then [squote, squote]
      else if \<not> find_unsafe s then s
      else [squote] @ str_replace squote [squote, dquote, squote, dquote, squote] s @ [squote])"

section \<open>External collaborators\<close>

text \<open>
  The builder calls into modules that are not part of \<^verbatim>\<open>yocto.py\<close>: the typed
  accessors of \<^verbatim>\<open>moulin.yaml_helpers\<close> (imported as \<^verbatim>\<open>yh\<close>),
  \<^verbatim>\<open>moulin.utils.create_stamp_name\<close>, and the operating system's working directory
  behind \<^verbatim>\<open>os.path.abspath\<close>. They are parameters of the model, collected in one
  record, so every theorem below holds for any implementation of them. An accessor
  either raises (\<open>Inl\<close>) or returns; \<^verbatim>\<open>get_sequence_node\<close> and
  \<^verbatim>\<open>get_mapping_node\<close> return a node or \<^verbatim>\<open>None\<close>, \<^verbatim>\<open>get_mandatory_sequence\<close>
  returns the list of nodes the builder iterates over, the string accessors return the
  string together with its mark. \<open>py_repr\<close> is Python's \<^verbatim>\<open>repr\<close> of a value that is
  not a string, which an f-string prints.
\<close>

record env =
  cwd :: string
  create_stamp_name :: "string list \<Rightarrow> string"
  py_repr :: "pyval \<Rightarrow> string"
  get_str_value :: "node \<Rightarrow> string \<Rightarrow> string \<Rightarrow> error + string \<times> mark option"
  get_mandatory_str_value :: "node \<Rightarrow> string \<Rightarrow> error + string \<times> mark"
  get_sequence_node :: "node \<Rightarrow> string \<Rightarrow> error + node option"
  get_mapping_node :: "node \<Rightarrow> string \<Rightarrow> error + node option"
  get_mandatory_sequence :: "node \<Rightarrow> string \<Rightarrow> error + node list"

text \<open>\<^verbatim>\<open>f"{v}"\<close>: a string prints as itself, any other value as its \<^verbatim>\<open>repr\<close>.\<close>

definition py_format :: "env \<Rightarrow> pyval \<Rightarrow> string" where
  "py_format E v = (case v of PStr s \<Rightarrow> s | PSeq xs \<Rightarrow> py_repr E v | PMap kvs \<Rightarrow> py_repr E v)"

text \<open>
  Modelled from the spec: the Incremental Graph Writer (\<^verbatim>\<open>ninja_syntax.Writer\<close>, not
  part of \<^verbatim>\<open>yocto.py\<close>), of which the spec gives the interface
  \<^verbatim>\<open>declareEdge(outputs, ruleName, inputs, variables)\<close> and \<^verbatim>\<open>emitBlankLine()\<close>. The
  writer is the list of declarations it has received, in order; an edge keeps its
  outputs and inputs as lists (a single path is a list of one) and its variables in the
  order of the dictionary passed.
\<close>

record edge =
  outputs :: "string list"
  rule :: string
  inputs :: "string list"
  variables :: "(string \<times> string) list"

datatype decl = Build edge | Newline

type_synonym writer = "decl list"

definition build ::
  "writer \<Rightarrow> string list \<Rightarrow> string \<Rightarrow> string list \<Rightarrow> (string \<times> string) list \<Rightarrow> writer" where
  "build generator outs r ins vars =
     generator @ [Build \<lparr>outputs = outs, rule = r, inputs = ins, variables = vars\<rparr>]"

definition newline :: "writer \<Rightarrow> writer" where
  "newline generator = generator @ [Newline]"

section \<open>Flattening of the conf entries\<close>

text \<open>
  \<^verbatim>\<open>(x.value[0].value, x.value[1].value)\<close>: indexing the value of a sequence node
  raises \<^verbatim>\<open>IndexError\<close> where the element is missing; indexing a non-empty string or
  list of pairs gives an object with no attribute \<^verbatim>\<open>value\<close>.
\<close>

fun pair_of :: "node \<Rightarrow> error + pyval \<times> pyval" where
  "pair_of (SequenceNode m []) = Inl IndexError"
| "pair_of (SequenceNode m [a]) = Inl IndexError"
| "pair_of (SequenceNode m (a # b # xs)) = Inr (node_value a, node_value b)"
| "pair_of (ScalarNode m s) = (if s = [] then Inl IndexError else Inl AttributeError)"
| "pair_of (MappingNode m kvs) = (if kvs = [] then Inl IndexError else Inl AttributeError)"

text \<open>The body of the loop of \<^verbatim>\<open>_flatten_yocto_conf\<close>, for one entry.\<close>

fun flatten_entry :: "node \<Rightarrow> error + (pyval \<times> pyval) list" where
  "flatten_entry (SequenceNode m []) = Inl IndexError"
| "flatten_entry (SequenceNode m (x # xs)) =
     (if is_SequenceNode x then map_err pair_of (x # xs)
      else (case pair_of (SequenceNode m (x # xs)) of Inl e \<Rightarrow> Inl e | Inr p \<Rightarrow> Inr [p]))"
| "flatten_entry (ScalarNode m s) =
     Inl (YAMLProcessingError ''Exptected array on 'conf' node'' m)"
| "flatten_entry (MappingNode m kvs) =
     Inl (YAMLProcessingError ''Exptected array on 'conf' node'' m)"

text \<open>The loop, with the list \<^verbatim>\<open>result\<close> it extends.\<close>

fun flatten_entries ::
  "node list \<Rightarrow> (pyval \<times> pyval) list \<Rightarrow> error + (pyval \<times> pyval) list" where
  "flatten_entries [] result = Inr result"
| "flatten_entries (entry # rest) result =
     (case flatten_entry entry of
        Inl e \<Rightarrow> Inl e
      | Inr ps \<Rightarrow> flatten_entries rest (result @ ps))"

text \<open>
  \<^verbatim>\<open>_flatten_yocto_conf\<close>. The argument is annotated as a sequence node; on another
  node the loop would run over the characters of a string or the pairs of a mapping,
  which have no \<^verbatim>\<open>start_mark\<close>.
\<close>

definition flatten_yocto_conf :: "node \<Rightarrow> error + (pyval \<times> pyval) list" where
  "flatten_yocto_conf cnf =
     (case cnf of
        SequenceNode m entries \<Rightarrow> flatten_entries entries []
      | ScalarNode m s \<Rightarrow> (if s = [] then Inr [] else Inl AttributeError)
      | MappingNode m kvs \<Rightarrow> (if kvs = [] then Inr [] else Inl AttributeError))"

section \<open>The builder\<close>

record YoctoBuilder =
  conf :: node
  name :: string
  src_stamps :: "string list"
  yocto_dir :: string
  work_dir :: string

text \<open>\<^verbatim>\<open>YoctoBuilder.__init__\<close>; the generator is the writer threaded through \<open>gen_build\<close>.\<close>

definition YoctoBuilder_init ::
  "env \<Rightarrow> node \<Rightarrow> string \<Rightarrow> string \<Rightarrow> string list \<Rightarrow> error + YoctoBuilder" where
  "YoctoBuilder_init E cnf nm build_dir stamps =
     (case get_str_value E cnf ''work_dir'' ''build'' of
        Inl e \<Rightarrow> Inl e
      | Inr (w, m) \<Rightarrow>
          Inr \<lparr>conf = cnf, name = nm, src_stamps = stamps, yocto_dir = build_dir, work_dir = w\<rparr>)"

text \<open>The path of one external source: the body of the loop of \<^verbatim>\<open>_get_external_src\<close>.\<close>

definition external_src_path :: "env \<Rightarrow> node \<Rightarrow> error + string" where
  "external_src_path E val_node =
     (case val_node of
        SequenceNode m xs \<Rightarrow>
          (case os_path_join (map node_value xs) of
             Inl e \<Rightarrow> Inl e
           | Inr path \<Rightarrow> Inr (abspath (cwd E) path))
      | ScalarNode m s \<Rightarrow> Inr (abspath (cwd E) s)
      | MappingNode m kvs \<Rightarrow> Inl TypeError)"

definition external_src_entry :: "env \<Rightarrow> node \<times> node \<Rightarrow> error + string \<times> string" where
  "external_src_entry E kv =
     (case external_src_path E (snd kv) of
        Inl e \<Rightarrow> Inl e
      | Inr path \<Rightarrow> Inr (''EXTERNALSRC_pn-'' @ py_format E (node_value (fst kv)), path))"

text \<open>
  \<^verbatim>\<open>_get_external_src\<close>. Unpacking \<^verbatim>\<open>key_node, val_node\<close> from the element of a
  sequence node is a \<^verbatim>\<open>TypeError\<close>, from a character a \<^verbatim>\<open>ValueError\<close>.
\<close>

definition get_external_src :: "env \<Rightarrow> YoctoBuilder \<Rightarrow> error + (string \<times> string) list" where
  "get_external_src E self =
     (case get_mapping_node E (conf self) ''external_src'' of
        Inl e \<Rightarrow> Inl e
      | Inr None \<Rightarrow> Inr []
      | Inr (Some external_src_node) \<Rightarrow>
          (case external_src_node of
             MappingNode m kvs \<Rightarrow> map_err (external_src_entry E) kvs
           | SequenceNode m xs \<Rightarrow> (if xs = [] then Inr [] else Inl TypeError)
           | ScalarNode m s \<Rightarrow> (if s = [] then Inr [] else Inl ValueError)))"

subsection \<open>The pieces of \<^verbatim>\<open>gen_build\<close>\<close>

definition common_variables :: "YoctoBuilder \<Rightarrow> (string \<times> string) list" where
  "common_variables self = [(''yocto_dir'', yocto_dir self), (''work_dir'', work_dir self)]"

definition env_target :: "YoctoBuilder \<Rightarrow> string" where
  "env_target self = posixpath_join (yocto_dir self) [work_dir self, ''conf'', ''local.conf'']"

definition layers_stamp :: "env \<Rightarrow> YoctoBuilder \<Rightarrow> string" where
  "layers_stamp E self =
     create_stamp_name E [yocto_dir self, work_dir self, ''yocto'', ''layers'']"

definition local_conf_target :: "YoctoBuilder \<Rightarrow> string" where
  "local_conf_target self =
     posixpath_join (yocto_dir self) [work_dir self, ''conf'', ''moulin.conf'']"

text \<open>The variable \<^verbatim>\<open>layers\<close>.\<close>

definition gen_layers :: "env \<Rightarrow> YoctoBuilder \<Rightarrow> error + string" where
  "gen_layers E self =
     (case get_sequence_node E (conf self) ''layers'' of
        Inl e \<Rightarrow> Inl e
      | Inr None \<Rightarrow> Inr []
      | Inr (Some layers_node) \<Rightarrow>
          (case values_of layers_node of Inl e \<Rightarrow> Inl e | Inr vs \<Rightarrow> py_join '' '' vs))"

text \<open>The variable \<^verbatim>\<open>local_conf\<close>, once the external sources have been appended.\<close>

definition gen_local_conf :: "env \<Rightarrow> YoctoBuilder \<Rightarrow> error + (pyval \<times> pyval) list" where
  "gen_local_conf E self =
     (case get_sequence_node E (conf self) ''conf'' of
        Inl e \<Rightarrow> Inl e
      | Inr local_conf_node \<Rightarrow>
          (case (case local_conf_node of None \<Rightarrow> Inr [] | Some n \<Rightarrow> flatten_yocto_conf n) of
             Inl e \<Rightarrow> Inl e
           | Inr local_conf \<Rightarrow>
               (case get_external_src E self of
                  Inl e \<Rightarrow> Inl e
                | Inr ext \<Rightarrow> Inr (local_conf @ map (\<lambda>kv. (PStr (fst kv), PStr (snd kv))) ext))))"

text \<open>\<^verbatim>\<open>v.replace("$", "$$")\<close>: only a string has the method.\<close>

fun replace_dollar :: "pyval \<Rightarrow> error + string" where
  "replace_dollar (PStr s) = Inr (str_replace (CHR ''$'') ''$$'' s)"
| "replace_dollar (PSeq xs) = Inl AttributeError"
| "replace_dollar (PMap kvs) = Inl AttributeError"

text \<open>One element of \<^verbatim>\<open>local_conf_lines\<close>.\<close>

definition conf_line :: "pyval \<times> pyval \<Rightarrow> error + string" where
  "conf_line kv =
     (case replace_dollar (fst kv) of
        Inl e \<Rightarrow> Inl e
      | Inr k \<Rightarrow>
          (case replace_dollar (snd kv) of
             Inl e \<Rightarrow> Inl e
           | Inr v \<Rightarrow> Inr (shlex_quote (k @ '' = '' @ [dquote] @ v @ [dquote]))))"

definition gen_local_conf_lines :: "env \<Rightarrow> YoctoBuilder \<Rightarrow> error + string list" where
  "gen_local_conf_lines E self =
     (case gen_local_conf E self of Inl e \<Rightarrow> Inl e | Inr local_conf \<Rightarrow> map_err conf_line local_conf)"

text \<open>The variables \<^verbatim>\<open>targets\<close> and \<^verbatim>\<open>deps\<close>.\<close>

definition gen_targets :: "env \<Rightarrow> YoctoBuilder \<Rightarrow> error + string list" where
  "gen_targets E self =
     (case get_mandatory_sequence E (conf self) ''target_images'' of
        Inl e \<Rightarrow> Inl e
      | Inr ts \<Rightarrow>
          map_err (\<lambda>t. os_path_join [PStr (yocto_dir self), PStr (work_dir self), node_value t]) ts)"

definition gen_deps :: "env \<Rightarrow> YoctoBuilder \<Rightarrow> error + string list" where
  "gen_deps E self =
     (case get_sequence_node E (conf self) ''additional_deps'' of
        Inl e \<Rightarrow> Inl e
      | Inr None \<Rightarrow> Inr [local_conf_target self]
      | Inr (Some additional_deps_node) \<Rightarrow>
          (case values_of additional_deps_node of
             Inl e \<Rightarrow> Inl e
           | Inr vs \<Rightarrow>
               (case map_err (\<lambda>d. os_path_join [PStr (yocto_dir self), d]) vs of
                  Inl e \<Rightarrow> Inl e
                | Inr deps \<Rightarrow> Inr (deps @ [local_conf_target self]))))"

subsection \<open>\<^verbatim>\<open>gen_build\<close>\<close>

text \<open>
  The writer is passed in and returned: an exception leaves in it whatever had been
  written before it was raised.
\<close>

definition gen_build :: "env \<Rightarrow> YoctoBuilder \<Rightarrow> writer \<Rightarrow> (error + string list) \<times> writer" where
  "gen_build E self generator =
     (let g1 = build generator [env_target self] ''yocto_init_env'' (src_stamps self)
                 (common_variables self)
      in case gen_layers E self of
           Inl e \<Rightarrow> (Inl e, g1)
         | Inr layers \<Rightarrow>
      (let g2 = build g1 [layers_stamp E self] ''yocto_add_layers'' [env_target self]
                  (common_variables self @ [(''layers'', layers)])
       in case gen_local_conf_lines E self of
            Inl e \<Rightarrow> (Inl e, g2)
          | Inr local_conf_lines \<Rightarrow>
       (let g3 = build g2 [local_conf_target self] ''yocto_update_conf'' [layers_stamp E self]
                   (common_variables self @ [(''conf'', str_join '' '' local_conf_lines)]);
            g4 = newline g3;
            g5 = build g4 [''conf-'' @ name self] ''phony'' [local_conf_target self] [];
            g6 = newline g5
        in case gen_targets E self of
             Inl e \<Rightarrow> (Inl e, g6)
           | Inr targets \<Rightarrow>
        (case gen_deps E self of
           Inl e \<Rightarrow> (Inl e, g6)
         | Inr deps \<Rightarrow>
        (case get_mandatory_str_value E (conf self) ''build_target'' of
           Inl e \<Rightarrow> (Inl e, g6)
         | Inr tm \<Rightarrow>
             (Inr targets,
              build g6 targets ''yocto_build'' deps
                (common_variables self @ [(''target'', fst tm), (''name'', name self)])))))))"

section \<open>The builder as an object with state\<close>

text \<open>
  \<open>gen_build\<close> above takes the instance and the working directory as values. In Python
  they are state that a method may change: the attributes of \<^verbatim>\<open>self\<close>, the working
  directory of the process, the writer, and the lists the method creates and mutates
  (\<^verbatim>\<open>result\<close> and \<^verbatim>\<open>ret\<close> by \<^verbatim>\<open>append\<close> and \<^verbatim>\<open>extend\<close>, \<^verbatim>\<open>local_conf\<close> by
  \<^verbatim>\<open>extend\<close>, \<^verbatim>\<open>deps\<close> by \<^verbatim>\<open>append\<close>). This second model of the same code threads
  all of it: a state holds the instance, the working directory, the writer and a heap of
  list objects, a list variable is an address into the heap, and every attribute of
  \<^verbatim>\<open>self\<close> and every working directory is read from the state current at the statement
  that reads it. The nodes of the configuration are values inside \<^verbatim>\<open>self.conf\<close>; the
  temporary lists of the comprehensions are not kept. The collaborators may depend on
  the working directory they run in (\<open>C d\<close> is how they behave in directory \<open>d\<close>) and are
  taken to read only.
\<close>

datatype cell = Pairs "(pyval \<times> pyval) list" | Strs "string list"

record pystate =
  st_self :: YoctoBuilder
  st_cwd :: string
  st_heap :: "cell list"
  st_generator :: writer

definition env_at :: "(string \<Rightarrow> env) \<Rightarrow> pystate \<Rightarrow> env" where
  "env_at C s = (C (st_cwd s))\<lparr>cwd := st_cwd s\<rparr>"

text \<open>A new list object, its address; reading a list; \<^verbatim>\<open>extend\<close> and \<^verbatim>\<open>append\<close>.\<close>

definition new_list :: "cell \<Rightarrow> pystate \<Rightarrow> nat \<times> pystate" where
  "new_list c s = (length (st_heap s), s\<lparr>st_heap := st_heap s @ [c]\<rparr>)"

definition pairs_at :: "nat \<Rightarrow> pystate \<Rightarrow> (pyval \<times> pyval) list" where
  "pairs_at a s =
     (if a < length (st_heap s) then (case st_heap s ! a of Pairs ps \<Rightarrow> ps | Strs ss \<Rightarrow> [])
      else [])"

definition strs_at :: "nat \<Rightarrow> pystate \<Rightarrow> string list" where
  "strs_at a s =
     (if a < length (st_heap s) then (case st_heap s ! a of Pairs ps \<Rightarrow> [] | Strs ss \<Rightarrow> ss)
      else [])"

definition list_extend :: "nat \<Rightarrow> (pyval \<times> pyval) list \<Rightarrow> pystate \<Rightarrow> pystate" where
  "list_extend a ps s = s\<lparr>st_heap := (st_heap s)[a := Pairs (pairs_at a s @ ps)]\<rparr>"

definition list_append_str :: "nat \<Rightarrow> string \<Rightarrow> pystate \<Rightarrow> pystate" where
  "list_append_str a x s = s\<lparr>st_heap := (st_heap s)[a := Strs (strs_at a s @ [x])]\<rparr>"

text \<open>\<^verbatim>\<open>self.generator.build(...)\<close> and \<^verbatim>\<open>self.generator.newline()\<close>.\<close>

definition st_build ::
  "string list \<Rightarrow> string \<Rightarrow> string list \<Rightarrow> (string \<times> string) list \<Rightarrow> pystate \<Rightarrow> pystate" where
  "st_build outs r ins vars s = s\<lparr>st_generator := build (st_generator s) outs r ins vars\<rparr>"

definition st_newline :: "pystate \<Rightarrow> pystate" where
  "st_newline s = s\<lparr>st_generator := newline (st_generator s)\<rparr>"

text \<open>
  \<^verbatim>\<open>_flatten_yocto_conf\<close>: \<^verbatim>\<open>result = []\<close> is a new list, each round of the loop extends
  it by the pairs of the entry, the list is returned.
\<close>

fun flatten_loop_st :: "node list \<Rightarrow> nat \<Rightarrow> pystate \<Rightarrow> error option \<times> pystate" where
  "flatten_loop_st [] result s = (None, s)"
| "flatten_loop_st (entry # rest) result s =
     (case flatten_entry entry of
        Inl e \<Rightarrow> (Some e, s)
      | Inr ps \<Rightarrow> flatten_loop_st rest result (list_extend result ps s))"

definition flatten_yocto_conf_st :: "node \<Rightarrow> pystate \<Rightarrow> (error + nat) \<times> pystate" where
  "flatten_yocto_conf_st cnf s =
     (let (result, s1) = new_list (Pairs []) s
      in case cnf of
           SequenceNode m entries \<Rightarrow>
             (case flatten_loop_st entries result s1 of
                (Some e, s2) \<Rightarrow> (Inl e, s2)
              | (None, s2) \<Rightarrow> (Inr result, s2))
         | ScalarNode m str \<Rightarrow>
             (if str = [] then (Inr result, s1) else (Inl AttributeError, s1))
         | MappingNode m kvs \<Rightarrow>
             (if kvs = [] then (Inr result, s1) else (Inl AttributeError, s1)))"

text \<open>\<^verbatim>\<open>_get_external_src\<close>: \<^verbatim>\<open>ret\<close> is a new list, appended to once per pair.\<close>

fun external_src_loop_st ::
  "(string \<Rightarrow> env) \<Rightarrow> (node \<times> node) list \<Rightarrow> nat \<Rightarrow> pystate \<Rightarrow> error option \<times> pystate" where
  "external_src_loop_st C [] ret s = (None, s)"
| "external_src_loop_st C (kv # rest) ret s =
     (case external_src_entry (env_at C s) kv of
        Inl e \<Rightarrow> (Some e, s)
      | Inr p \<Rightarrow> external_src_loop_st C rest ret (list_extend ret [(PStr (fst p), PStr (snd p))] s))"

definition get_external_src_st :: "(string \<Rightarrow> env) \<Rightarrow> pystate \<Rightarrow> (error + nat) \<times> pystate" where
  "get_external_src_st C s =
     (case get_mapping_node (env_at C s) (conf (st_self s)) ''external_src'' of
        Inl e \<Rightarrow> (Inl e, s)
      | Inr None \<Rightarrow> (let (ret, s1) = new_list (Pairs []) s in (Inr ret, s1))
      | Inr (Some external_src_node) \<Rightarrow>
          (let (ret, s1) = new_list (Pairs []) s
           in case external_src_node of
                MappingNode m kvs \<Rightarrow>
                  (case external_src_loop_st C kvs ret s1 of
                     (Some e, s2) \<Rightarrow> (Inl e, s2)
                   | (None, s2) \<Rightarrow> (Inr ret, s2))
              | SequenceNode m xs \<Rightarrow> (if xs = [] then (Inr ret, s1) else (Inl TypeError, s1))
              | ScalarNode m str \<Rightarrow> (if str = [] then (Inr ret, s1) else (Inl ValueError, s1))))"

text \<open>The list \<^verbatim>\<open>local_conf\<close>, extended in place by the external sources.\<close>

definition gen_local_conf_st :: "(string \<Rightarrow> env) \<Rightarrow> pystate \<Rightarrow> (error + nat) \<times> pystate" where
  "gen_local_conf_st C s =
     (case get_sequence_node (env_at C s) (conf (st_self s)) ''conf'' of
        Inl e \<Rightarrow> (Inl e, s)
      | Inr local_conf_node \<Rightarrow>
          (case (case local_conf_node of
                   None \<Rightarrow> (let (a, s1) = new_list (Pairs []) s in (Inr a, s1))
                 | Some n \<Rightarrow> flatten_yocto_conf_st n s) of
             (Inl e, s1) \<Rightarrow> (Inl e, s1)
           | (Inr local_conf, s1) \<Rightarrow>
               (case get_external_src_st C s1 of
                  (Inl e, s2) \<Rightarrow> (Inl e, s2)
                | (Inr ext, s2) \<Rightarrow> (Inr local_conf, list_extend local_conf (pairs_at ext s2) s2))))"

text \<open>The lists \<^verbatim>\<open>targets\<close> and \<^verbatim>\<open>deps\<close>, each built by a comprehension.\<close>

definition gen_targets_st :: "(string \<Rightarrow> env) \<Rightarrow> pystate \<Rightarrow> (error + nat) \<times> pystate" where
  "gen_targets_st C s =
     (case gen_targets (env_at C s) (st_self s) of
        Inl e \<Rightarrow> (Inl e, s)
      | Inr ts \<Rightarrow> (let (a, s1) = new_list (Strs ts) s in (Inr a, s1)))"

definition gen_deps_st :: "(string \<Rightarrow> env) \<Rightarrow> pystate \<Rightarrow> (error + nat) \<times> pystate" where
  "gen_deps_st C s =
     (case get_sequence_node (env_at C s) (conf (st_self s)) ''additional_deps'' of
        Inl e \<Rightarrow> (Inl e, s)
      | Inr None \<Rightarrow> (let (a, s1) = new_list (Strs []) s in (Inr a, s1))
      | Inr (Some additional_deps_node) \<Rightarrow>
          (case values_of additional_deps_node of
             Inl e \<Rightarrow> (Inl e, s)
           | Inr vs \<Rightarrow>
               (case map_err (\<lambda>d. os_path_join [PStr (yocto_dir (st_self s)), d]) vs of
                  Inl e \<Rightarrow> (Inl e, s)
                | Inr ds \<Rightarrow> (let (a, s1) = new_list (Strs ds) s in (Inr a, s1)))))"

text \<open>
  \<^verbatim>\<open>gen_build\<close>, statement by statement; the value returned is the list \<^verbatim>\<open>targets\<close> as
  it stands at the return.
\<close>

definition gen_build_st :: "(string \<Rightarrow> env) \<Rightarrow> pystate \<Rightarrow> (error + string list) \<times> pystate" where
  "gen_build_st C s =
     (let cv = common_variables (st_self s);
          env_tgt = env_target (st_self s);
          s1 = st_build [env_tgt] ''yocto_init_env'' (src_stamps (st_self s)) cv s
      in case gen_layers (env_at C s1) (st_self s1) of
           Inl e \<Rightarrow> (Inl e, s1)
         | Inr layers \<Rightarrow>
      (let stamp = layers_stamp (env_at C s1) (st_self s1);
           s2 = st_build [stamp] ''yocto_add_layers'' [env_tgt] (cv @ [(''layers'', layers)]) s1;
           conf_tgt = local_conf_target (st_self s2)
       in case gen_local_conf_st C s2 of
            (Inl e, s3) \<Rightarrow> (Inl e, s3)
          | (Inr local_conf, s3) \<Rightarrow>
       (case map_err conf_line (pairs_at local_conf s3) of
          Inl e \<Rightarrow> (Inl e, s3)
        | Inr local_conf_lines \<Rightarrow>
       (let s4 = st_build [conf_tgt] ''yocto_update_conf'' [stamp]
                   (cv @ [(''conf'', str_join '' '' local_conf_lines)]) s3;
            s5 = st_newline s4;
            s6 = st_build [''conf-'' @ name (st_self s5)] ''phony'' [conf_tgt] [] s5;
            s7 = st_newline s6
        in case gen_targets_st C s7 of
             (Inl e, s8) \<Rightarrow> (Inl e, s8)
           | (Inr targets, s8) \<Rightarrow>
        (case gen_deps_st C s8 of
           (Inl e, s9) \<Rightarrow> (Inl e, s9)
         | (Inr deps, s9) \<Rightarrow>
        (let s10 = list_append_str deps conf_tgt s9
         in case get_mandatory_str_value (env_at C s10) (conf (st_self s10)) ''build_target'' of
              Inl e \<Rightarrow> (Inl e, s10)
            | Inr tm \<Rightarrow>
                (let s11 = st_build (strs_at targets s10) ''yocto_build'' (strs_at deps s10)
                             (cv @ [(''target'', fst tm), (''name'', name (st_self s10))]) s10
                 in (Inr (strs_at targets s11), s11))))))))"

section \<open>Notions the properties are stated with\<close>

subsection \<open>Reading the writer\<close>

fun edges_of :: "writer \<Rightarrow> edge list" where
  "edges_of [] = []"
| "edges_of (Build e # ds) = e # edges_of ds"
| "edges_of (Newline # ds) = edges_of ds"

text \<open>Everything a successful run of \<open>gen_build\<close> appends to the writer.\<close>

definition emitted ::
  "env \<Rightarrow> YoctoBuilder \<Rightarrow> string \<Rightarrow> string list \<Rightarrow> string list \<Rightarrow> string list \<Rightarrow> string \<Rightarrow> writer" where
  "emitted E self layers lines ts deps target =
       [Build \<lparr>outputs = [env_target self], rule = ''yocto_init_env'',
               inputs = src_stamps self, variables = common_variables self\<rparr>,
        Build \<lparr>outputs = [layers_stamp E self], rule = ''yocto_add_layers'',
               inputs = [env_target self],
               variables = common_variables self @ [(''layers'', layers)]\<rparr>,
        Build \<lparr>outputs = [local_conf_target self], rule = ''yocto_update_conf'',
               inputs = [layers_stamp E self],
               variables = common_variables self @ [(''conf'', str_join '' '' lines)]\<rparr>,
        Newline,
        Build \<lparr>outputs = [''conf-'' @ name self], rule = ''phony'',
               inputs = [local_conf_target self], variables = []\<rparr>,
        Newline,
        Build \<lparr>outputs = ts, rule = ''yocto_build'', inputs = deps,
               variables = common_variables self @ [(''target'', target), (''name'', name self)]\<rparr>]"

subsection \<open>The shape of conf entries\<close>

text \<open>A sequence node with at least two elements.\<close>

fun two_elements :: "node \<Rightarrow> bool" where
  "two_elements (SequenceNode m xs) = (2 \<le> length xs)"
| "two_elements (ScalarNode m s) = False"
| "two_elements (MappingNode m kvs) = False"

text \<open>
  The entries the loop body accepts: a pair, that is a sequence of at least two elements
  whose first is not a sequence, or a group, that is a sequence whose first element is a
  sequence and whose members are all sequences of at least two elements.
\<close>

fun entry_ok :: "node \<Rightarrow> bool" where
  "entry_ok (SequenceNode m []) = False"
| "entry_ok (SequenceNode m (x # xs)) =
     (if is_SequenceNode x then list_all two_elements (x # xs) else xs \<noteq> [])"
| "entry_ok (ScalarNode m s) = False"
| "entry_ok (MappingNode m kvs) = False"

text \<open>
  The stronger condition that the entry itself has at least two elements and, when it is
  a group, so has each of its members.
\<close>

fun entry_two_elements :: "node \<Rightarrow> bool" where
  "entry_two_elements (SequenceNode m (x # y # xs)) =
     (if is_SequenceNode x then list_all two_elements (x # y # xs) else True)"
| "entry_two_elements (SequenceNode m [x]) = False"
| "entry_two_elements (SequenceNode m []) = False"
| "entry_two_elements (ScalarNode m s) = False"
| "entry_two_elements (MappingNode m kvs) = False"

text \<open>
  The flattening as the specification words it: walk the entries in order; an entry
  whose first element is a sequence contributes each inner pair
  \<open>(inner[0], inner[1])\<close>, any other entry the single pair \<open>(entry[0], entry[1])\<close>.
  The indices are only meaningful on entries that have the elements.
\<close>

definition elems :: "node \<Rightarrow> node list" where
  "elems n = (case n of SequenceNode m xs \<Rightarrow> xs | ScalarNode m s \<Rightarrow> [] | MappingNode m kvs \<Rightarrow> [])"

definition leaf_pair :: "node \<Rightarrow> pyval \<times> pyval" where
  "leaf_pair n = (node_value (elems n ! 0), node_value (elems n ! 1))"

definition entry_leaves :: "node \<Rightarrow> (pyval \<times> pyval) list" where
  "entry_leaves entry =
     (if is_SequenceNode (elems entry ! 0) then map leaf_pair (elems entry)
      else [leaf_pair entry])"

definition walk_leaves :: "node list \<Rightarrow> (pyval \<times> pyval) list" where
  "walk_leaves entries = concat (map entry_leaves entries)"

subsection \<open>The readers of a materialized line\<close>

text \<open>
  A line of \<^verbatim>\<open>local_conf_lines\<close> is read twice before it reaches \<^verbatim>\<open>moulin.conf\<close>:
  by ninja, which expands variables in the edge's \<^verbatim>\<open>conf\<close> variable, and by the shell
  that runs the rule's command. Both readers are given here for the constructs a line
  can contain and are undefined (\<open>None\<close>) elsewhere. Ninja turns \<^verbatim>\<open>$$\<close> into \<^verbatim>\<open>$\<close>; any
  other use of \<^verbatim>\<open>$\<close> refers to a variable or escapes a character; a newline ends the
  value of a variable, and a lone carriage return or a NUL character is refused by
  ninja's lexer, so a text holding one of the three is not read back as written. The
  shell reads one word made of single-quoted parts (verbatim up to the next single
  quote), double-quoted parts (verbatim up to the next double quote, but for \<^verbatim>\<open>$\<close>,
  backquote and backslash) and unquoted characters that mean themselves.
\<close>

definition ninja_stops :: "char \<Rightarrow> bool" where
  "ninja_stops c = (c = CHR 0x0A \<or> c = CHR 0x0D \<or> c = CHR 0x00)"

fun ninja_expand :: "string \<Rightarrow> string option" where
  "ninja_expand [] = Some []"
| "ninja_expand [c] = (if c = CHR ''$'' \<or> ninja_stops c then None else Some [c])"
| "ninja_expand (c # d # ds) =
     (if c = CHR ''$'' then
        (if d = CHR ''$'' then map_option ((#) (CHR ''$'')) (ninja_expand ds) else None)
      else if ninja_stops c then None
      else map_option ((#) c) (ninja_expand (d # ds)))"

datatype quoting = Unquoted | Single | Double

fun shell_word :: "quoting \<Rightarrow> string \<Rightarrow> string option" where
  "shell_word Unquoted [] = Some []"
| "shell_word Single [] = None"
| "shell_word Double [] = None"
| "shell_word Unquoted (c # cs) =
     (if c = squote then shell_word Single cs
      else if c = dquote then shell_word Double cs
      else if c \<in> set safe_chars then map_option ((#) c) (shell_word Unquoted cs)
      else None)"
| "shell_word Single (c # cs) =
     (if c = squote then shell_word Unquoted cs
      else map_option ((#) c) (shell_word Single cs))"
| "shell_word Double (c # cs) =
     (if c = dquote then shell_word Unquoted cs
      else if c = CHR ''$'' \<or> c = CHR 0x60 \<or> c = CHR 0x5C then None
      else map_option ((#) c) (shell_word Double cs))"

definition shell_unquote :: "string \<Rightarrow> string option" where
  "shell_unquote s = shell_word Unquoted s"

definition expand_then_unquote :: "string \<Rightarrow> string option" where
  "expand_then_unquote s = (case ninja_expand s of None \<Rightarrow> None | Some t \<Rightarrow> shell_unquote t)"

subsection \<open>External source values\<close>

text \<open>A plain path, or a sequence of at least one path segment.\<close>

fun src_value_ok :: "node \<Rightarrow> bool" where
  "src_value_ok (ScalarNode m s) = True"
| "src_value_ok (SequenceNode m xs) = (xs \<noteq> [] \<and> list_all is_ScalarNode xs)"
| "src_value_ok (MappingNode m kvs) = False"

fun scalar_str :: "node \<Rightarrow> string" where
  "scalar_str (ScalarNode m s) = s"
| "scalar_str (SequenceNode m xs) = []"
| "scalar_str (MappingNode m kvs) = []"

text \<open>The path a value stands for: the plain path, or its segments joined.\<close>

fun src_path :: "node \<Rightarrow> string" where
  "src_path (ScalarNode m s) = s"
| "src_path (SequenceNode m []) = []"
| "src_path (SequenceNode m (x # xs)) = posixpath_join (scalar_str x) (map scalar_str xs)"
| "src_path (MappingNode m kvs) = []"

section \<open>A configuration accessor and sample instances\<close>

text \<open>
  Modelled from the spec: the Configuration Node accessors of
  \<^verbatim>\<open>moulin.yaml_helpers\<close>, which are not part of \<^verbatim>\<open>yocto.py\<close>. The spec gives
  \<^verbatim>\<open>getString(node, key, default?) -> (value, sourcePosition)\<close>,
  \<^verbatim>\<open>getSequence(node, key) -> node?\<close>, \<^verbatim>\<open>getMapping(node, key) -> node?\<close> and
  \<^verbatim>\<open>getMandatorySequence/getMandatoryString(node, key) -> value | fails with
  MissingFieldError\<close>, typed and with positional error reporting. A key is looked up
  among the scalar keys of a mapping node; a value of the wrong kind is a structural
  error at the value's position (the spec fixes no message).
\<close>

fun get_node :: "node \<Rightarrow> string \<Rightarrow> node option" where
  "get_node (MappingNode m kvs) key =
     map_option snd (find (\<lambda>kv. node_value (fst kv) = PStr key) kvs)"
| "get_node (ScalarNode m s) key = None"
| "get_node (SequenceNode m xs) key = None"

definition yh_get_str_value :: "node \<Rightarrow> string \<Rightarrow> string \<Rightarrow> error + string \<times> mark option" where
  "yh_get_str_value cnf key dflt =
     (case get_node cnf key of
        None \<Rightarrow> Inr (dflt, None)
      | Some (ScalarNode m s) \<Rightarrow> Inr (s, Some m)
      | Some (SequenceNode m xs) \<Rightarrow> Inl (YAMLProcessingError ''scalar expected'' m)
      | Some (MappingNode m kvs) \<Rightarrow> Inl (YAMLProcessingError ''scalar expected'' m))"

definition yh_get_mandatory_str_value :: "node \<Rightarrow> string \<Rightarrow> error + string \<times> mark" where
  "yh_get_mandatory_str_value cnf key =
     (case get_node cnf key of
        None \<Rightarrow> Inl (MissingFieldError key (start_mark cnf))
      | Some (ScalarNode m s) \<Rightarrow> Inr (s, m)
      | Some (SequenceNode m xs) \<Rightarrow> Inl (YAMLProcessingError ''scalar expected'' m)
      | Some (MappingNode m kvs) \<Rightarrow> Inl (YAMLProcessingError ''scalar expected'' m))"

definition yh_get_sequence_node :: "node \<Rightarrow> string \<Rightarrow> error + node option" where
  "yh_get_sequence_node cnf key =
     (case get_node cnf key of
        None \<Rightarrow> Inr None
      | Some (SequenceNode m xs) \<Rightarrow> Inr (Some (SequenceNode m xs))
      | Some (ScalarNode m s) \<Rightarrow> Inl (YAMLProcessingError ''sequence expected'' m)
      | Some (MappingNode m kvs) \<Rightarrow> Inl (YAMLProcessingError ''sequence expected'' m))"

definition yh_get_mapping_node :: "node \<Rightarrow> string \<Rightarrow> error + node option" where
  "yh_get_mapping_node cnf key =
     (case get_node cnf key of
        None \<Rightarrow> Inr None
      | Some (MappingNode m kvs) \<Rightarrow> Inr (Some (MappingNode m kvs))
      | Some (ScalarNode m s) \<Rightarrow> Inl (YAMLProcessingError ''mapping expected'' m)
      | Some (SequenceNode m xs) \<Rightarrow> Inl (YAMLProcessingError ''mapping expected'' m))"

definition yh_get_mandatory_sequence :: "node \<Rightarrow> string \<Rightarrow> error + node list" where
  "yh_get_mandatory_sequence cnf key =
     (case get_node cnf key of
        None \<Rightarrow> Inl (MissingFieldError key (start_mark cnf))
      | Some (SequenceNode m xs) \<Rightarrow> Inr xs
      | Some (ScalarNode m s) \<Rightarrow> Inl (YAMLProcessingError ''sequence expected'' m)
      | Some (MappingNode m kvs) \<Rightarrow> Inl (YAMLProcessingError ''sequence expected'' m))"

text \<open>
  Modelled from the spec: \<^verbatim>\<open>moulin.utils.create_stamp_name\<close>, not part of
  \<^verbatim>\<open>yocto.py\<close>. The spec says only that a stage dependency marker is a synthetic path
  computed from its arguments; this sample joins them with dashes under
  \<^verbatim>\<open>.stamps\<close>. It serves the sample environment alone: the theorems range over every
  such function.
\<close>

definition sample_stamp_name :: "string list \<Rightarrow> string" where
  "sample_stamp_name args = ''.stamps/'' @ str_join ''-'' args"

definition sample_env :: env where
  "sample_env =
     \<lparr>cwd = ''/home/user'',
      create_stamp_name = sample_stamp_name,
      py_repr = (\<lambda>v. ''<object>''),
      get_str_value = yh_get_str_value,
      get_mandatory_str_value = yh_get_mandatory_str_value,
      get_sequence_node = yh_get_sequence_node,
      get_mapping_node = yh_get_mapping_node,
      get_mandatory_sequence = yh_get_mandatory_sequence\<rparr>"

text \<open>Nodes of sample configurations; \<open>mk\<close> numbers the source positions.\<close>

definition mk :: "nat \<Rightarrow> mark" where
  "mk n = Mark n 0"

definition scalar :: "nat \<Rightarrow> string \<Rightarrow> node" where
  "scalar n s = ScalarNode (mk n) s"

definition seq :: "nat \<Rightarrow> node list \<Rightarrow> node" where
  "seq n xs = SequenceNode (mk n) xs"

text \<open>
  Scenario A of the specification: instance \<^verbatim>\<open>a\<close>, no layers, no conf entries, no
  external sources, one target image.
\<close>

definition conf_a :: node where
  "conf_a =
     MappingNode (mk 1)
       [(scalar 2 ''target_images'', seq 2 [scalar 3 ''image.wic'']),
        (scalar 4 ''build_target'', scalar 4 ''core-image-minimal'')]"

definition builder_a :: YoctoBuilder where
  "builder_a =
     \<lparr>conf = conf_a, name = ''a'', src_stamps = [''fetch.stamp''],
      yocto_dir = ''/yocto'', work_dir = ''build''\<rparr>"

text \<open>The same configuration under another instance name.\<close>

definition builder_b :: YoctoBuilder where
  "builder_b = builder_a\<lparr>name := ''b''\<rparr>"

text \<open>
  A full configuration: layers, the conf entries of scenario B with a value holding a
  dollar, the external source of scenario C, an additional dependency.
\<close>

definition conf_entries_b :: "node list" where
  "conf_entries_b =
     [seq 10 [scalar 11 ''FOO'', scalar 12 ''1''],
      seq 13 [seq 14 [scalar 15 ''BAR'', scalar 16 ''2''],
              seq 17 [scalar 18 ''BAZ'', scalar 19 ''3'']]]"

definition conf_full :: node where
  "conf_full =
     MappingNode (mk 1)
       [(scalar 2 ''work_dir'', scalar 2 ''work''),
        (scalar 3 ''layers'', seq 3 [scalar 4 ''../meta-a'', scalar 5 ''../meta-b'']),
        (scalar 9 ''conf'', seq 9 (conf_entries_b @ [seq 20 [scalar 21 ''PATH'', scalar 22 ''$HOME/bin'']])),
        (scalar 30 ''external_src'',
           MappingNode (mk 30) [(scalar 31 ''mylib'', seq 31 [scalar 32 ''srcs'', scalar 33 ''mylib''])]),
        (scalar 40 ''additional_deps'', seq 40 [scalar 41 ''extra/file'']),
        (scalar 50 ''target_images'', seq 50 [scalar 51 ''tmp/image.wic'']),
        (scalar 60 ''build_target'', scalar 60 ''core-image-minimal'')]"

definition builder_full :: YoctoBuilder where
  "builder_full =
     \<lparr>conf = conf_full, name = ''full'', src_stamps = [''fetch.stamp''],
      yocto_dir = ''/yocto'', work_dir = ''work''\<rparr>"

text \<open>Scenario D of the specification: \<^verbatim>\<open>target_images\<close> is missing.\<close>

definition conf_d :: node where
  "conf_d = MappingNode (mk 1) [(scalar 4 ''build_target'', scalar 4 ''core-image-minimal'')]"

definition builder_d :: YoctoBuilder where
  "builder_d =
     \<lparr>conf = conf_d, name = ''d'', src_stamps = [''fetch.stamp''],
      yocto_dir = ''/yocto'', work_dir = ''build''\<rparr>"

text \<open>An external source whose value is a sequence of no path segments.\<close>

definition conf_e :: node where
  "conf_e =
     MappingNode (mk 1)
       [(scalar 30 ''external_src'', MappingNode (mk 30) [(scalar 31 ''mylib'', seq 31 [])]),
        (scalar 50 ''target_images'', seq 50 [scalar 51 ''image.wic'']),
        (scalar 60 ''build_target'', scalar 60 ''core-image-minimal'')]"

definition builder_e :: YoctoBuilder where
  "builder_e =
     \<lparr>conf = conf_e, name = ''e'', src_stamps = [''fetch.stamp''],
      yocto_dir = ''/yocto'', work_dir = ''build''\<rparr>"

section \<open>Evaluation of the sample instances\<close>

lemmas sample_defs =
  sample_env_def sample_stamp_name_def builder_a_def builder_b_def builder_d_def builder_full_def
  conf_a_def conf_d_def conf_e_def builder_e_def conf_full_def conf_entries_b_def scalar_def
  seq_def mk_def
  yh_get_str_value_def yh_get_mandatory_str_value_def yh_get_sequence_node_def
  yh_get_mapping_node_def yh_get_mandatory_sequence_def

lemmas builder_defs =
  gen_build_def build_def newline_def gen_layers_def gen_local_conf_lines_def gen_local_conf_def
  gen_targets_def gen_deps_def get_external_src_def external_src_entry_def external_src_path_def
  flatten_yocto_conf_def conf_line_def common_variables_def env_target_def layers_stamp_def
  local_conf_target_def py_join_def os_path_join_def py_format_def

lemmas path_defs =
  posixpath_join_def join_step_def startswith_sep_def endswith_sep_def abspath_def normpath_def
  initial_slashes_def norm_step_def shlex_quote_def find_unsafe_def safe_chars_def
  str_replace_def squote_def dquote_def

lemma gen_build_a:
  "gen_build sample_env builder_a [] =
    (Inr [''/yocto/build/image.wic''],
     [Build \<lparr>outputs = [''/yocto/build/conf/local.conf''], rule = ''yocto_init_env'',
             inputs = [''fetch.stamp''],
             variables = [(''yocto_dir'', ''/yocto''), (''work_dir'', ''build'')]\<rparr>,
      Build \<lparr>outputs = [''.stamps//yocto-build-yocto-layers''], rule = ''yocto_add_layers'',
             inputs = [''/yocto/build/conf/local.conf''],
             variables = [(''yocto_dir'', ''/yocto''), (''work_dir'', ''build''), (''layers'', '''')]\<rparr>,
      Build \<lparr>outputs = [''/yocto/build/conf/moulin.conf''], rule = ''yocto_update_conf'',
             inputs = [''.stamps//yocto-build-yocto-layers''],
             variables = [(''yocto_dir'', ''/yocto''), (''work_dir'', ''build''), (''conf'', '''')]\<rparr>,
      Newline,
      Build \<lparr>outputs = [''conf-a''], rule = ''phony'',
             inputs = [''/yocto/build/conf/moulin.conf''], variables = []\<rparr>,
      Newline,
      Build \<lparr>outputs = [''/yocto/build/image.wic''], rule = ''yocto_build'',
             inputs = [''/yocto/build/conf/moulin.conf''],
             variables = [(''yocto_dir'', ''/yocto''), (''work_dir'', ''build''),
                          (''target'', ''core-image-minimal''), (''name'', ''a'')]\<rparr>])"
  by (simp add: sample_defs builder_defs path_defs)


lemma gen_build_b:
  "gen_build sample_env builder_b [] =
    (Inr [''/yocto/build/image.wic''],
     [Build \<lparr>outputs = [''/yocto/build/conf/local.conf''], rule = ''yocto_init_env'',
             inputs = [''fetch.stamp''],
             variables = [(''yocto_dir'', ''/yocto''), (''work_dir'', ''build'')]\<rparr>,
      Build \<lparr>outputs = [''.stamps//yocto-build-yocto-layers''], rule = ''yocto_add_layers'',
             inputs = [''/yocto/build/conf/local.conf''],
             variables = [(''yocto_dir'', ''/yocto''), (''work_dir'', ''build''), (''layers'', '''')]\<rparr>,
      Build \<lparr>outputs = [''/yocto/build/conf/moulin.conf''], rule = ''yocto_update_conf'',
             inputs = [''.stamps//yocto-build-yocto-layers''],
             variables = [(''yocto_dir'', ''/yocto''), (''work_dir'', ''build''), (''conf'', '''')]\<rparr>,
      Newline,
      Build \<lparr>outputs = [''conf-b''], rule = ''phony'',
             inputs = [''/yocto/build/conf/moulin.conf''], variables = []\<rparr>,
      Newline,
      Build \<lparr>outputs = [''/yocto/build/image.wic''], rule = ''yocto_build'',
             inputs = [''/yocto/build/conf/moulin.conf''],
             variables = [(''yocto_dir'', ''/yocto''), (''work_dir'', ''build''),
                          (''target'', ''core-image-minimal''), (''name'', ''b'')]\<rparr>])"
  by (simp add: sample_defs builder_defs path_defs)

lemma gen_build_d:
  "gen_build sample_env builder_d [] =
    (Inl (MissingFieldError ''target_images'' (Mark 1 0)),
     [Build \<lparr>outputs = [''/yocto/build/conf/local.conf''], rule = ''yocto_init_env'',
             inputs = [''fetch.stamp''],
             variables = [(''yocto_dir'', ''/yocto''), (''work_dir'', ''build'')]\<rparr>,
      Build \<lparr>outputs = [''.stamps//yocto-build-yocto-layers''], rule = ''yocto_add_layers'',
             inputs = [''/yocto/build/conf/local.conf''],
             variables = [(''yocto_dir'', ''/yocto''), (''work_dir'', ''build''), (''layers'', '''')]\<rparr>,
      Build \<lparr>outputs = [''/yocto/build/conf/moulin.conf''], rule = ''yocto_update_conf'',
             inputs = [''.stamps//yocto-build-yocto-layers''],
             variables = [(''yocto_dir'', ''/yocto''), (''work_dir'', ''build''), (''conf'', '''')]\<rparr>,
      Newline,
      Build \<lparr>outputs = [''conf-d''], rule = ''phony'',
             inputs = [''/yocto/build/conf/moulin.conf''], variables = []\<rparr>,
      Newline])"
  by (simp add: sample_defs builder_defs path_defs)

section \<open>The writer is only appended to\<close>

lemma gen_build_writer:
  "gen_build E self g = (fst (gen_build E self []), g @ snd (gen_build E self []))"
  by (simp add: gen_build_def build_def newline_def Let_def split: sum.splits)

lemma edges_of_append: "edges_of (xs @ ys) = edges_of xs @ edges_of ys"
  by (induction xs rule: edges_of.induct) simp_all

section \<open>Library facts\<close>

lemma map_err_the_str_map: "map_err the_str (map PStr ss) = Inr ss"
  by (induction ss) simp_all

lemma map_err_the_str_Inr: "map_err the_str vs = Inr ss \<Longrightarrow> vs = map PStr ss"
proof (induction vs arbitrary: ss)
  case Nil
  then show ?case by simp
next
  case (Cons v vs)
  then show ?case by (cases v) (auto split: sum.splits)
qed

lemma os_path_join_strs:
  "os_path_join (PStr a # map PStr p) = Inr (posixpath_join a p)"
proof -
  have "map_err the_str (map PStr (a # p)) = Inr (a # p)"
    by (rule map_err_the_str_map)
  then show ?thesis by (simp add: os_path_join_def)
qed

lemma os_path_join_Inr:
  "os_path_join vs = Inr r \<Longrightarrow> \<exists>ss. vs = map PStr ss"
  by (auto simp: os_path_join_def dest!: map_err_the_str_Inr split: sum.splits list.splits)

lemma os_path_join_last:
  assumes "os_path_join (map PStr pre @ [v]) = Inr r"
  shows "\<exists>s. v = PStr s"
proof -
  from os_path_join_Inr [OF assms] obtain ts where ts: "map PStr pre @ [v] = map PStr ts"
    by blast
  then have "ts \<noteq> []" by auto
  from ts have "last (map PStr pre @ [v]) = last (map PStr ts)" by simp
  with \<open>ts \<noteq> []\<close> have "v = PStr (last ts)" by (simp add: last_map)
  then show ?thesis by blast
qed

lemma map_err_map: "map_err f (map h xs) = map_err (\<lambda>x. f (h x)) xs"
  by (induction xs) (simp_all split: sum.splits)

lemma map_err_join2:
  "map_err (\<lambda>v. os_path_join [PStr a, v]) vs = Inr rs
   \<Longrightarrow> \<exists>ss. vs = map PStr ss \<and> rs = map (\<lambda>s. posixpath_join a [s]) ss"
proof (induction vs arbitrary: rs)
  case Nil
  then show ?case by simp
next
  case (Cons v vs)
  from Cons.prems obtain r rs' where r: "os_path_join [PStr a, v] = Inr r"
    and rs': "map_err (\<lambda>v. os_path_join [PStr a, v]) vs = Inr rs'" and rs: "rs = r # rs'"
    by (auto split: sum.splits)
  from Cons.IH [OF rs'] obtain ss where ss: "vs = map PStr ss"
    "rs' = map (\<lambda>s. posixpath_join a [s]) ss" by blast
  from os_path_join_last [of "[a]" v r] r obtain s where s: "v = PStr s" by auto
  with r have "r = posixpath_join a [s]"
    using os_path_join_strs [of a "[s]"] by simp
  with ss rs s show ?case
    by (intro exI [of _ "s # ss"]) simp
qed

lemma map_err_join3:
  "map_err (\<lambda>v. os_path_join [PStr a, PStr b, v]) vs = Inr rs
   \<Longrightarrow> \<exists>ss. vs = map PStr ss \<and> rs = map (\<lambda>s. posixpath_join a [b, s]) ss"
proof (induction vs arbitrary: rs)
  case Nil
  then show ?case by simp
next
  case (Cons v vs)
  from Cons.prems obtain r rs' where r: "os_path_join [PStr a, PStr b, v] = Inr r"
    and rs': "map_err (\<lambda>v. os_path_join [PStr a, PStr b, v]) vs = Inr rs'" and rs: "rs = r # rs'"
    by (auto split: sum.splits)
  from Cons.IH [OF rs'] obtain ss where ss: "vs = map PStr ss"
    "rs' = map (\<lambda>s. posixpath_join a [b, s]) ss" by blast
  from os_path_join_last [of "[a, b]" v r] r obtain s where s: "v = PStr s" by auto
  with r have "r = posixpath_join a [b, s]"
    using os_path_join_strs [of a "[b, s]"] by simp
  with ss rs s show ?case
    by (intro exI [of _ "s # ss"]) simp
qed

section \<open>The edges of a successful run\<close>

lemma gen_build_Inr:
  assumes "gen_build E self g = (Inr ts, g')"
  shows "\<exists>layers lines deps target tmark.
     gen_layers E self = Inr layers \<and> gen_local_conf_lines E self = Inr lines \<and>
     gen_targets E self = Inr ts \<and> gen_deps E self = Inr deps \<and>
     get_mandatory_str_value E (conf self) ''build_target'' = Inr (target, tmark) \<and>
     g' = g @ emitted E self layers lines ts deps target"
  using assms
  by (auto simp: gen_build_def build_def newline_def emitted_def Let_def split: sum.splits)

lemma gen_targets_Inr:
  assumes "gen_targets E self = Inr ts"
  shows "\<exists>nodes images.
     get_mandatory_sequence E (conf self) ''target_images'' = Inr nodes \<and>
     map node_value nodes = map PStr images \<and>
     ts = map (\<lambda>t. posixpath_join (yocto_dir self) [work_dir self, t]) images"
proof -
  from assms obtain nodes where
    n: "get_mandatory_sequence E (conf self) ''target_images'' = Inr nodes"
    and m: "map_err (\<lambda>t. os_path_join [PStr (yocto_dir self), PStr (work_dir self), node_value t])
              nodes = Inr ts"
    by (auto simp: gen_targets_def split: sum.splits)
  have "map_err (\<lambda>v. os_path_join [PStr (yocto_dir self), PStr (work_dir self), v])
          (map node_value nodes) = Inr ts"
    using m by (simp add: map_err_map)
  from map_err_join3 [OF this] n show ?thesis by blast
qed

lemma gen_deps_Inr:
  assumes "gen_deps E self = Inr deps"
  shows "\<exists>additional.
     deps = map (\<lambda>d. posixpath_join (yocto_dir self) [d]) additional @ [local_conf_target self] \<and>
     (case get_sequence_node E (conf self) ''additional_deps'' of
        Inl e \<Rightarrow> False
      | Inr None \<Rightarrow> additional = []
      | Inr (Some n) \<Rightarrow> values_of n = Inr (map PStr additional))"
proof (cases "get_sequence_node E (conf self) ''additional_deps''")
  case (Inl e)
  with assms show ?thesis by (simp add: gen_deps_def)
next
  case (Inr r)
  show ?thesis
  proof (cases r)
    case None
    with Inr assms show ?thesis by (simp add: gen_deps_def)
  next
    case (Some n)
    with Inr assms obtain vs ds where vs: "values_of n = Inr vs"
      and ds: "map_err (\<lambda>d. os_path_join [PStr (yocto_dir self), d]) vs = Inr ds"
      and deps: "deps = ds @ [local_conf_target self]"
      by (auto simp: gen_deps_def split: sum.splits)
    from map_err_join2 [OF ds] obtain ss where "vs = map PStr ss"
      "ds = map (\<lambda>s. posixpath_join (yocto_dir self) [s]) ss" by blast
    with vs deps Inr Some show ?thesis by auto
  qed
qed

text \<open>
  Claim C1, as amended. A run of \<open>gen_build\<close> that returns has appended exactly five
  edges to the writer: the four stage edges, which form a strict chain (stage 1 reads the
  source stamps, each later stage reads the output of the stage before it, stage 4 reads
  the additional dependencies, joined to the base directory, followed by the output of
  stage 3), and, between stages 3 and 4, the alias edge \<^verbatim>\<open>conf-<name>\<close> that reads the
  output of stage 3 by the rule \<^verbatim>\<open>phony\<close>. The value returned is the output list of the
  stage 4 edge: the target images joined to base and work directory.
\<close>

theorem gen_build_chain:
  assumes "gen_build E self g = (Inr ts, g')"
  shows "\<exists>e1 e2 e3 ea e4 additional images nodes.
     g' = g @ [Build e1, Build e2, Build e3, Newline, Build ea, Newline, Build e4]
   \<and> map rule [e1, e2, e3, ea, e4] =
       [''yocto_init_env'', ''yocto_add_layers'', ''yocto_update_conf'', ''phony'', ''yocto_build'']
   \<and> inputs e1 = src_stamps self
   \<and> outputs e1 = [posixpath_join (yocto_dir self) [work_dir self, ''conf'', ''local.conf'']]
   \<and> inputs e2 = outputs e1
   \<and> outputs e2 = [create_stamp_name E [yocto_dir self, work_dir self, ''yocto'', ''layers'']]
   \<and> inputs e3 = outputs e2
   \<and> outputs e3 = [posixpath_join (yocto_dir self) [work_dir self, ''conf'', ''moulin.conf'']]
   \<and> inputs ea = outputs e3
   \<and> outputs ea = [''conf-'' @ name self]
   \<and> inputs e4 = map (\<lambda>d. posixpath_join (yocto_dir self) [d]) additional @ outputs e3
   \<and> (case get_sequence_node E (conf self) ''additional_deps'' of
         Inl e \<Rightarrow> False
       | Inr None \<Rightarrow> additional = []
       | Inr (Some n) \<Rightarrow> values_of n = Inr (map PStr additional))
   \<and> outputs e4 = ts
   \<and> ts = map (\<lambda>t. posixpath_join (yocto_dir self) [work_dir self, t]) images
   \<and> get_mandatory_sequence E (conf self) ''target_images'' = Inr nodes
   \<and> map node_value nodes = map PStr images"
proof -
  from gen_build_Inr [OF assms] obtain layers lines deps target where
    t: "gen_targets E self = Inr ts" and d: "gen_deps E self = Inr deps" and
    g': "g' = g @ emitted E self layers lines ts deps target"
    by blast
  from gen_targets_Inr [OF t] obtain nodes images where
    n: "get_mandatory_sequence E (conf self) ''target_images'' = Inr nodes"
       "map node_value nodes = map PStr images"
       "ts = map (\<lambda>t. posixpath_join (yocto_dir self) [work_dir self, t]) images"
    by blast
  from gen_deps_Inr [OF d] obtain additional where
    a: "deps = map (\<lambda>d. posixpath_join (yocto_dir self) [d]) additional @ [local_conf_target self]"
       "(case get_sequence_node E (conf self) ''additional_deps'' of
           Inl e \<Rightarrow> False
         | Inr None \<Rightarrow> additional = []
         | Inr (Some n) \<Rightarrow> values_of n = Inr (map PStr additional))"
    by blast
  define e1 where "e1 = \<lparr>outputs = [env_target self], rule = ''yocto_init_env'',
               inputs = src_stamps self, variables = common_variables self\<rparr>"
  define e2 where "e2 = \<lparr>outputs = [layers_stamp E self], rule = ''yocto_add_layers'',
               inputs = [env_target self],
               variables = common_variables self @ [(''layers'', layers)]\<rparr>"
  define e3 where "e3 = \<lparr>outputs = [local_conf_target self], rule = ''yocto_update_conf'',
               inputs = [layers_stamp E self],
               variables = common_variables self @ [(''conf'', str_join '' '' lines)]\<rparr>"
  define ea where "ea = \<lparr>outputs = [''conf-'' @ name self], rule = ''phony'',
               inputs = [local_conf_target self], variables = []\<rparr>"
  define e4 where "e4 = \<lparr>outputs = ts, rule = ''yocto_build'', inputs = deps,
               variables = common_variables self @ [(''target'', target), (''name'', name self)]\<rparr>"
  have 1: "g' = g @ [Build e1, Build e2, Build e3, Newline, Build ea, Newline, Build e4]"
    by (simp add: g' emitted_def e1_def e2_def e3_def ea_def e4_def)
  have 2: "map rule [e1, e2, e3, ea, e4] =
       [''yocto_init_env'', ''yocto_add_layers'', ''yocto_update_conf'', ''phony'', ''yocto_build'']"
    by (simp add: e1_def e2_def e3_def ea_def e4_def)
  have 3: "inputs e1 = src_stamps self"
    "outputs e1 = [posixpath_join (yocto_dir self) [work_dir self, ''conf'', ''local.conf'']]"
    "inputs e2 = outputs e1"
    "outputs e2 = [create_stamp_name E [yocto_dir self, work_dir self, ''yocto'', ''layers'']]"
    "inputs e3 = outputs e2"
    "outputs e3 = [posixpath_join (yocto_dir self) [work_dir self, ''conf'', ''moulin.conf'']]"
    "inputs ea = outputs e3"
    "outputs ea = [''conf-'' @ name self]"
    "outputs e4 = ts"
    by (simp_all add: e1_def e2_def e3_def ea_def e4_def env_target_def layers_stamp_def
          local_conf_target_def)
  have 4: "inputs e4 = map (\<lambda>d. posixpath_join (yocto_dir self) [d]) additional @ outputs e3"
    by (simp add: e4_def e3_def a(1))
  show ?thesis
    apply (rule exI [of _ e1], rule exI [of _ e2], rule exI [of _ e3], rule exI [of _ ea])
    apply (rule exI [of _ e4], rule exI [of _ additional], rule exI [of _ images])
    apply (rule exI [of _ nodes])
    apply (intro conjI)
                   apply (rule 1 2 3 4 a(2) n)+
    done
qed

theorem gen_build_chain_witness:
  "gen_build sample_env builder_a [] =
     (Inr [''/yocto/build/image.wic''], snd (gen_build sample_env builder_a []))
   \<and> (\<exists>e1 e2 e3 ea e4.
        snd (gen_build sample_env builder_a []) =
          [Build e1, Build e2, Build e3, Newline, Build ea, Newline, Build e4]
        \<and> inputs e1 = [''fetch.stamp''] \<and> inputs e2 = outputs e1 \<and> inputs e3 = outputs e2
        \<and> inputs ea = outputs e3 \<and> outputs e4 = [''/yocto/build/image.wic''])"
proof -
  have h: "gen_build sample_env builder_a [] =
     (Inr [''/yocto/build/image.wic''], snd (gen_build sample_env builder_a []))"
    by (simp add: gen_build_a)
  from gen_build_chain [OF h] obtain e1 e2 e3 ea e4 where
    "snd (gen_build sample_env builder_a []) =
       [] @ [Build e1, Build e2, Build e3, Newline, Build ea, Newline, Build e4]"
    "inputs e1 = src_stamps builder_a" "inputs e2 = outputs e1" "inputs e3 = outputs e2"
    "inputs ea = outputs e3" "outputs e4 = [''/yocto/build/image.wic'']"
    by blast
  then have "\<exists>e1 e2 e3 ea e4.
        snd (gen_build sample_env builder_a []) =
          [Build e1, Build e2, Build e3, Newline, Build ea, Newline, Build e4]
        \<and> inputs e1 = [''fetch.stamp''] \<and> inputs e2 = outputs e1 \<and> inputs e3 = outputs e2
        \<and> inputs ea = outputs e3 \<and> outputs e4 = [''/yocto/build/image.wic'']"
    by (simp add: builder_a_def)
  with h show ?thesis by (rule conjI)
qed

text \<open>
  The claim as stated counts four edges. On scenario A of the specification the writer
  receives five.
\<close>

theorem gen_build_five_edges:
  "fst (gen_build sample_env builder_a []) = Inr [''/yocto/build/image.wic'']
   \<and> length (edges_of (snd (gen_build sample_env builder_a []))) = 5
   \<and> map rule (edges_of (snd (gen_build sample_env builder_a []))) =
       [''yocto_init_env'', ''yocto_add_layers'', ''yocto_update_conf'', ''phony'', ''yocto_build'']"
  by (simp add: gen_build_a)

section \<open>The layers edge\<close>

lemma gen_build_two_edges:
  assumes "gen_layers E self = Inr layers"
  shows "\<exists>rest. snd (gen_build E self g) =
      g @ [Build \<lparr>outputs = [env_target self], rule = ''yocto_init_env'',
                   inputs = src_stamps self, variables = common_variables self\<rparr>,
           Build \<lparr>outputs = [layers_stamp E self], rule = ''yocto_add_layers'',
                   inputs = [env_target self],
                   variables = common_variables self @ [(''layers'', layers)]\<rparr>] @ rest"
  using assms
  by (simp add: gen_build_def build_def newline_def Let_def split: sum.splits)

lemma gen_layers_None:
  "get_sequence_node E (conf self) ''layers'' = Inr None \<Longrightarrow> gen_layers E self = Inr []"
  by (simp add: gen_layers_def)

lemma gen_layers_Some:
  assumes "get_sequence_node E (conf self) ''layers'' = Inr (Some (SequenceNode m xs))"
    and "map node_value xs = map PStr ids"
  shows "gen_layers E self = Inr (str_join '' '' ids)"
  using assms by (simp add: gen_layers_def py_join_def map_err_the_str_map)

text \<open>
  Claim C7. With no layers configured (the accessor returns \<^verbatim>\<open>None\<close>) the stage 2 edge
  is still appended, right after the stage 1 edge, with the variable \<^verbatim>\<open>layers\<close> equal to
  the empty string, whatever happens in the later stages; with layers configured as a
  sequence of scalars the variable is their values joined by one space, in the order of
  the sequence.
\<close>

theorem layers_edge_always:
  "(get_sequence_node E (conf self) ''layers'' = Inr None \<longrightarrow>
      (\<exists>rest. snd (gen_build E self g) =
         g @ [Build \<lparr>outputs = [env_target self], rule = ''yocto_init_env'',
                      inputs = src_stamps self, variables = common_variables self\<rparr>,
              Build \<lparr>outputs = [layers_stamp E self], rule = ''yocto_add_layers'',
                      inputs = [env_target self],
                      variables = common_variables self @ [(''layers'', '''')]\<rparr>] @ rest))
   \<and> (get_sequence_node E (conf self) ''layers'' = Inr (Some (SequenceNode m xs))
        \<and> map node_value xs = map PStr ids \<longrightarrow>
      (\<exists>rest. snd (gen_build E self g) =
         g @ [Build \<lparr>outputs = [env_target self], rule = ''yocto_init_env'',
                      inputs = src_stamps self, variables = common_variables self\<rparr>,
              Build \<lparr>outputs = [layers_stamp E self], rule = ''yocto_add_layers'',
                      inputs = [env_target self],
                      variables = common_variables self @ [(''layers'', str_join '' '' ids)]\<rparr>]
           @ rest))"
proof (intro conjI impI)
  assume "get_sequence_node E (conf self) ''layers'' = Inr None"
  then have "gen_layers E self = Inr ''''" by (rule gen_layers_None)
  then show "\<exists>rest. snd (gen_build E self g) =
         g @ [Build \<lparr>outputs = [env_target self], rule = ''yocto_init_env'',
                      inputs = src_stamps self, variables = common_variables self\<rparr>,
              Build \<lparr>outputs = [layers_stamp E self], rule = ''yocto_add_layers'',
                      inputs = [env_target self],
                      variables = common_variables self @ [(''layers'', '''')]\<rparr>] @ rest"
    by (rule gen_build_two_edges)
next
  assume "get_sequence_node E (conf self) ''layers'' = Inr (Some (SequenceNode m xs))
        \<and> map node_value xs = map PStr ids"
  then have "gen_layers E self = Inr (str_join '' '' ids)"
    by (simp add: gen_layers_Some)
  then show "\<exists>rest. snd (gen_build E self g) =
         g @ [Build \<lparr>outputs = [env_target self], rule = ''yocto_init_env'',
                      inputs = src_stamps self, variables = common_variables self\<rparr>,
              Build \<lparr>outputs = [layers_stamp E self], rule = ''yocto_add_layers'',
                      inputs = [env_target self],
                      variables = common_variables self @ [(''layers'', str_join '' '' ids)]\<rparr>]
           @ rest"
    by (rule gen_build_two_edges)
qed

lemma layers_a: "get_sequence_node sample_env (conf builder_a) ''layers'' = Inr None"
  by (simp add: sample_defs)

lemma layers_full:
  "get_sequence_node sample_env (conf builder_full) ''layers'' =
     Inr (Some (SequenceNode (Mark 3 0)
       [ScalarNode (Mark 4 0) ''../meta-a'', ScalarNode (Mark 5 0) ''../meta-b'']))"
  by (simp add: sample_defs)

theorem layers_edge_always_witness:
  "get_sequence_node sample_env (conf builder_a) ''layers'' = Inr None
   \<and> (\<exists>rest. snd (gen_build sample_env builder_a []) =
         [Build \<lparr>outputs = [''/yocto/build/conf/local.conf''], rule = ''yocto_init_env'',
                 inputs = [''fetch.stamp''],
                 variables = [(''yocto_dir'', ''/yocto''), (''work_dir'', ''build'')]\<rparr>,
          Build \<lparr>outputs = [''.stamps//yocto-build-yocto-layers''], rule = ''yocto_add_layers'',
                 inputs = [''/yocto/build/conf/local.conf''],
                 variables = [(''yocto_dir'', ''/yocto''), (''work_dir'', ''build''),
                              (''layers'', '''')]\<rparr>] @ rest)
   \<and> get_sequence_node sample_env (conf builder_full) ''layers'' =
        Inr (Some (SequenceNode (Mark 3 0)
          [ScalarNode (Mark 4 0) ''../meta-a'', ScalarNode (Mark 5 0) ''../meta-b'']))
   \<and> (\<exists>rest. snd (gen_build sample_env builder_full []) =
         [Build \<lparr>outputs = [''/yocto/work/conf/local.conf''], rule = ''yocto_init_env'',
                 inputs = [''fetch.stamp''],
                 variables = [(''yocto_dir'', ''/yocto''), (''work_dir'', ''work'')]\<rparr>,
          Build \<lparr>outputs = [''.stamps//yocto-work-yocto-layers''], rule = ''yocto_add_layers'',
                 inputs = [''/yocto/work/conf/local.conf''],
                 variables = [(''yocto_dir'', ''/yocto''), (''work_dir'', ''work''),
                              (''layers'', ''../meta-a ../meta-b'')]\<rparr>] @ rest)"
proof -
  have m: "map node_value [ScalarNode (Mark 4 0) ''../meta-a'', ScalarNode (Mark 5 0) ''../meta-b'']
      = map PStr [''../meta-a'', ''../meta-b'']"
    by simp
  have c: "env_target builder_a = ''/yocto/build/conf/local.conf''"
    "layers_stamp sample_env builder_a = ''.stamps//yocto-build-yocto-layers''"
    "common_variables builder_a = [(''yocto_dir'', ''/yocto''), (''work_dir'', ''build'')]"
    "src_stamps builder_a = [''fetch.stamp'']"
    "env_target builder_full = ''/yocto/work/conf/local.conf''"
    "layers_stamp sample_env builder_full = ''.stamps//yocto-work-yocto-layers''"
    "common_variables builder_full = [(''yocto_dir'', ''/yocto''), (''work_dir'', ''work'')]"
    "src_stamps builder_full = [''fetch.stamp'']"
    by (simp_all add: sample_defs builder_defs path_defs)
  from layers_edge_always [of sample_env builder_a "[]" "Mark 3 0" "[]" "[]"] layers_a
  have 1: "\<exists>rest. snd (gen_build sample_env builder_a []) =
         [Build \<lparr>outputs = [''/yocto/build/conf/local.conf''], rule = ''yocto_init_env'',
                 inputs = [''fetch.stamp''],
                 variables = [(''yocto_dir'', ''/yocto''), (''work_dir'', ''build'')]\<rparr>,
          Build \<lparr>outputs = [''.stamps//yocto-build-yocto-layers''], rule = ''yocto_add_layers'',
                 inputs = [''/yocto/build/conf/local.conf''],
                 variables = [(''yocto_dir'', ''/yocto''), (''work_dir'', ''build''),
                              (''layers'', '''')]\<rparr>] @ rest"
    by (simp add: c)
  from layers_edge_always [of sample_env builder_full "[]" "Mark 3 0"
      "[ScalarNode (Mark 4 0) ''../meta-a'', ScalarNode (Mark 5 0) ''../meta-b'']"
      "[''../meta-a'', ''../meta-b'']"] layers_full m
  have 2: "\<exists>rest. snd (gen_build sample_env builder_full []) =
         [Build \<lparr>outputs = [''/yocto/work/conf/local.conf''], rule = ''yocto_init_env'',
                 inputs = [''fetch.stamp''],
                 variables = [(''yocto_dir'', ''/yocto''), (''work_dir'', ''work'')]\<rparr>,
          Build \<lparr>outputs = [''.stamps//yocto-work-yocto-layers''], rule = ''yocto_add_layers'',
                 inputs = [''/yocto/work/conf/local.conf''],
                 variables = [(''yocto_dir'', ''/yocto''), (''work_dir'', ''work''),
                              (''layers'', ''../meta-a ../meta-b'')]\<rparr>] @ rest"
    by (simp add: c)
  from layers_a 1 layers_full 2 show ?thesis by (intro conjI)
qed

section \<open>Failure after edges have been written\<close>

text \<open>
  Claim C3, as amended. \<open>gen_build\<close> is not atomic: an edge is written when its stage is
  reached, and an exception raised later leaves it in the writer. When the layers and
  the conf lines have been computed without error and the accessor of the mandatory
  \<^verbatim>\<open>target_images\<close> raises, \<open>gen_build\<close> fails with that error after the edges of
  stages 1 to 3 and the alias edge have been written; only the stage 4 edge is missing.
\<close>

theorem gen_build_not_atomic:
  assumes "gen_layers E self = Inr layers"
    and "gen_local_conf_lines E self = Inr lines"
    and "get_mandatory_sequence E (conf self) ''target_images'' = Inl err"
  shows "gen_build E self g =
    (Inl err,
     g @ [Build \<lparr>outputs = [env_target self], rule = ''yocto_init_env'',
                  inputs = src_stamps self, variables = common_variables self\<rparr>,
          Build \<lparr>outputs = [layers_stamp E self], rule = ''yocto_add_layers'',
                  inputs = [env_target self],
                  variables = common_variables self @ [(''layers'', layers)]\<rparr>,
          Build \<lparr>outputs = [local_conf_target self], rule = ''yocto_update_conf'',
                  inputs = [layers_stamp E self],
                  variables = common_variables self @ [(''conf'', str_join '' '' lines)]\<rparr>,
          Newline,
          Build \<lparr>outputs = [''conf-'' @ name self], rule = ''phony'',
                  inputs = [local_conf_target self], variables = []\<rparr>,
          Newline])"
  using assms
  by (simp add: gen_build_def build_def newline_def gen_targets_def Let_def)

lemma gen_build_edge_count:
  "length (edges_of (snd (gen_build E self []))) =
     (case gen_layers E self of
        Inl e \<Rightarrow> 1
      | Inr layers \<Rightarrow>
          (case gen_local_conf_lines E self of
             Inl e \<Rightarrow> 2
           | Inr lines \<Rightarrow> (case fst (gen_build E self []) of Inl e \<Rightarrow> 4 | Inr ts \<Rightarrow> 5)))"
  by (simp add: gen_build_def build_def newline_def Let_def split: sum.splits)

lemma sample_d_pre:
  "gen_layers sample_env builder_d = Inr []"
  "gen_local_conf_lines sample_env builder_d = Inr []"
  "get_mandatory_sequence sample_env (conf builder_d) ''target_images'' =
     Inl (MissingFieldError ''target_images'' (Mark 1 0))"
  by (simp_all add: sample_defs builder_defs)

theorem gen_build_not_atomic_witness:
  "gen_layers sample_env builder_d = Inr []
   \<and> gen_local_conf_lines sample_env builder_d = Inr []
   \<and> get_mandatory_sequence sample_env (conf builder_d) ''target_images'' =
       Inl (MissingFieldError ''target_images'' (Mark 1 0))
   \<and> gen_build sample_env builder_d [] =
    (Inl (MissingFieldError ''target_images'' (Mark 1 0)),
     [Build \<lparr>outputs = [''/yocto/build/conf/local.conf''], rule = ''yocto_init_env'',
             inputs = [''fetch.stamp''],
             variables = [(''yocto_dir'', ''/yocto''), (''work_dir'', ''build'')]\<rparr>,
      Build \<lparr>outputs = [''.stamps//yocto-build-yocto-layers''], rule = ''yocto_add_layers'',
             inputs = [''/yocto/build/conf/local.conf''],
             variables = [(''yocto_dir'', ''/yocto''), (''work_dir'', ''build''), (''layers'', '''')]\<rparr>,
      Build \<lparr>outputs = [''/yocto/build/conf/moulin.conf''], rule = ''yocto_update_conf'',
             inputs = [''.stamps//yocto-build-yocto-layers''],
             variables = [(''yocto_dir'', ''/yocto''), (''work_dir'', ''build''), (''conf'', '''')]\<rparr>,
      Newline,
      Build \<lparr>outputs = [''conf-d''], rule = ''phony'',
             inputs = [''/yocto/build/conf/moulin.conf''], variables = []\<rparr>,
      Newline])"
proof -
  have c: "env_target builder_d = ''/yocto/build/conf/local.conf''"
    "layers_stamp sample_env builder_d = ''.stamps//yocto-build-yocto-layers''"
    "local_conf_target builder_d = ''/yocto/build/conf/moulin.conf''"
    "common_variables builder_d = [(''yocto_dir'', ''/yocto''), (''work_dir'', ''build'')]"
    "src_stamps builder_d = [''fetch.stamp'']" "name builder_d = ''d''"
    by (simp_all add: sample_defs builder_defs path_defs)
  from gen_build_not_atomic [OF sample_d_pre, of "[]"] sample_d_pre
  show ?thesis by (simp add: c)
qed

text \<open>
  The claim as stated says that no edge has been emitted when \<^verbatim>\<open>target_images\<close> is
  missing. On scenario D of the specification four edges have been.
\<close>

theorem gen_build_edges_before_failure:
  "fst (gen_build sample_env builder_d []) = Inl (MissingFieldError ''target_images'' (Mark 1 0))
   \<and> map rule (edges_of (snd (gen_build sample_env builder_d []))) =
       [''yocto_init_env'', ''yocto_add_layers'', ''yocto_update_conf'', ''phony'']"
  by (simp add: gen_build_d)

section \<open>What the stage markers depend on\<close>

text \<open>
  Claim C6, as amended. The outputs of the first three stages (the two configuration
  files and the layers stamp) are computed from the base directory and the work
  directory alone; the instance name does not enter them. Two instances with the same
  directories therefore emit the same three paths.
\<close>

theorem markers_from_directories:
  assumes "gen_build E a g = (Inr ta, ga)" and "gen_build E b g = (Inr tb, gb)"
    and "yocto_dir a = yocto_dir b" and "work_dir a = work_dir b"
  shows "map outputs (take 3 (edges_of (drop (length g) ga))) =
      [ [posixpath_join (yocto_dir a) [work_dir a, ''conf'', ''local.conf'']],
       [create_stamp_name E [yocto_dir a, work_dir a, ''yocto'', ''layers'']],
       [posixpath_join (yocto_dir a) [work_dir a, ''conf'', ''moulin.conf'']]]
    \<and> map outputs (take 3 (edges_of (drop (length g) gb))) =
        map outputs (take 3 (edges_of (drop (length g) ga)))"
proof -
  from gen_build_Inr [OF assms(1)] obtain la na da ta' where
    "ga = g @ emitted E a la na ta da ta'" by blast
  then have 1: "map outputs (take 3 (edges_of (drop (length g) ga))) =
      [ [env_target a], [layers_stamp E a], [local_conf_target a]]"
    by (simp add: emitted_def)
  from gen_build_Inr [OF assms(2)] obtain lb nb db tb' where
    "gb = g @ emitted E b lb nb tb db tb'" by blast
  then have 2: "map outputs (take 3 (edges_of (drop (length g) gb))) =
      [ [env_target b], [layers_stamp E b], [local_conf_target b]]"
    by (simp add: emitted_def)
  from 1 2 assms(3,4) show ?thesis
    by (simp add: env_target_def layers_stamp_def local_conf_target_def)
qed

theorem markers_from_directories_witness:
  "gen_build sample_env builder_a [] =
     (Inr [''/yocto/build/image.wic''], snd (gen_build sample_env builder_a []))
   \<and> gen_build sample_env builder_b [] =
     (Inr [''/yocto/build/image.wic''], snd (gen_build sample_env builder_b []))
   \<and> yocto_dir builder_a = yocto_dir builder_b \<and> work_dir builder_a = work_dir builder_b
   \<and> map outputs (take 3 (edges_of (snd (gen_build sample_env builder_b [])))) =
       [ [''/yocto/build/conf/local.conf''], [''.stamps//yocto-build-yocto-layers''],
        [''/yocto/build/conf/moulin.conf'']]"
proof -
  have a: "gen_build sample_env builder_a [] =
     (Inr [''/yocto/build/image.wic''], snd (gen_build sample_env builder_a []))"
    by (simp add: gen_build_a)
  have b: "gen_build sample_env builder_b [] =
     (Inr [''/yocto/build/image.wic''], snd (gen_build sample_env builder_b []))"
    by (simp add: gen_build_b)
  have d: "yocto_dir builder_a = yocto_dir builder_b" "work_dir builder_a = work_dir builder_b"
    by (simp_all add: builder_b_def)
  have c: "posixpath_join (yocto_dir builder_a) [work_dir builder_a, ''conf'', ''local.conf'']
      = ''/yocto/build/conf/local.conf''"
    "create_stamp_name sample_env [yocto_dir builder_a, work_dir builder_a, ''yocto'', ''layers'']
      = ''.stamps//yocto-build-yocto-layers''"
    "posixpath_join (yocto_dir builder_a) [work_dir builder_a, ''conf'', ''moulin.conf'']
      = ''/yocto/build/conf/moulin.conf''"
    by (simp_all add: sample_defs path_defs)
  from markers_from_directories [OF a b d]
  have "map outputs (take 3 (edges_of (snd (gen_build sample_env builder_b [])))) =
       [ [''/yocto/build/conf/local.conf''], [''.stamps//yocto-build-yocto-layers''],
        [''/yocto/build/conf/moulin.conf'']]"
    by (simp add: c)
  with a b d show ?thesis by (intro conjI)
qed

text \<open>
  The claim as stated says that the markers of two different instances never collide.
  Instances \<^verbatim>\<open>a\<close> and \<^verbatim>\<open>b\<close> differ in their names only and emit the same markers.
\<close>

theorem markers_shared_between_instances:
  "name builder_a = ''a'' \<and> name builder_b = ''b''
   \<and> map outputs (take 3 (edges_of (snd (gen_build sample_env builder_a [])))) =
       [ [''/yocto/build/conf/local.conf''], [''.stamps//yocto-build-yocto-layers''],
        [''/yocto/build/conf/moulin.conf'']]
   \<and> map outputs (take 3 (edges_of (snd (gen_build sample_env builder_b [])))) =
       [ [''/yocto/build/conf/local.conf''], [''.stamps//yocto-build-yocto-layers''],
        [''/yocto/build/conf/moulin.conf'']]"
  by (simp add: gen_build_a gen_build_b) (simp add: builder_a_def builder_b_def)

section \<open>Flattening\<close>

lemma flatten_entries_acc:
  "flatten_entries es acc =
     (case flatten_entries es [] of Inl e \<Rightarrow> Inl e | Inr ps \<Rightarrow> Inr (acc @ ps))"
proof (induction es arbitrary: acc)
  case Nil
  then show ?case by simp
next
  case (Cons e es)
  show ?case
  proof (cases "flatten_entry e")
    case (Inl err)
    then show ?thesis by simp
  next
    case (Inr qs)
    have "flatten_entries (e # es) acc = flatten_entries es (acc @ qs)"
      using Inr by simp
    also have "\<dots> = (case flatten_entries es [] of Inl e \<Rightarrow> Inl e
                      | Inr ps \<Rightarrow> Inr ((acc @ qs) @ ps))"
      by (rule Cons.IH)
    finally have l: "flatten_entries (e # es) acc =
        (case flatten_entries es [] of Inl e \<Rightarrow> Inl e | Inr ps \<Rightarrow> Inr (acc @ qs @ ps))"
      by (simp split: sum.splits)
    have "flatten_entries (e # es) [] = flatten_entries es qs"
      using Inr by simp
    also have "\<dots> = (case flatten_entries es [] of Inl e \<Rightarrow> Inl e | Inr ps \<Rightarrow> Inr (qs @ ps))"
      by (rule Cons.IH)
    finally show ?thesis using l by (simp split: sum.splits)
  qed
qed

lemma flatten_entries_append:
  "flatten_entries (xs @ ys) acc =
     (case flatten_entries xs acc of Inl e \<Rightarrow> Inl e | Inr r \<Rightarrow> flatten_entries ys r)"
  by (induction xs arbitrary: acc) (simp_all split: sum.splits)

lemma flatten_entries_stop:
  assumes "flatten_entries pre [] = Inr ps" and "flatten_entry entry = Inl err"
  shows "flatten_entries (pre @ entry # post) [] = Inl err"
  using assms by (simp add: flatten_entries_append)

lemma pair_of_two_elements: "two_elements x \<Longrightarrow> pair_of x = Inr (leaf_pair x)"
  by (cases x rule: pair_of.cases) (simp_all add: leaf_pair_def elems_def)

lemma map_err_pair_of:
  "list_all two_elements xs \<Longrightarrow> map_err pair_of xs = Inr (map leaf_pair xs)"
  by (induction xs) (simp_all add: pair_of_two_elements)

lemma flatten_entry_ok: "entry_ok e \<Longrightarrow> flatten_entry e = Inr (entry_leaves e)"
proof (induction e rule: flatten_entry.induct)
  case (2 m x xs)
  show ?case
  proof (cases "is_SequenceNode x")
    case True
    with 2 have "list_all two_elements (x # xs)" by simp
    then have "map_err pair_of (x # xs) = Inr (map leaf_pair (x # xs))"
      by (rule map_err_pair_of)
    with True show ?thesis by (simp add: entry_leaves_def elems_def)
  next
    case False
    with 2 obtain y ys where "xs = y # ys" by (cases xs) auto
    with False show ?thesis by (simp add: entry_leaves_def elems_def leaf_pair_def)
  qed
qed simp_all

lemma pair_of_Inr: "pair_of x = Inr p \<Longrightarrow> two_elements x"
  by (cases x rule: pair_of.cases) (simp_all split: if_splits)

lemma map_err_pair_of_Inr: "map_err pair_of xs = Inr ps \<Longrightarrow> list_all two_elements xs"
  by (induction xs arbitrary: ps) (auto split: sum.splits dest: pair_of_Inr)

lemma flatten_entry_Inr: "flatten_entry e = Inr ps \<Longrightarrow> entry_ok e"
proof (induction e rule: flatten_entry.induct)
  case (2 m x xs)
  show ?case
  proof (cases "is_SequenceNode x")
    case True
    with 2 have "map_err pair_of (x # xs) = Inr ps" by simp
    then have "list_all two_elements (x # xs)" by (rule map_err_pair_of_Inr)
    with True show ?thesis by simp
  next
    case False
    with 2 show ?thesis by (cases xs) (auto split: sum.splits)
  qed
qed simp_all

lemma flatten_entries_ok:
  "list_all entry_ok es \<Longrightarrow> flatten_entries es acc = Inr (acc @ walk_leaves es)"
  by (induction es arbitrary: acc) (simp_all add: walk_leaves_def flatten_entry_ok)

lemma flatten_entries_Inr: "flatten_entries es acc = Inr ps \<Longrightarrow> list_all entry_ok es"
  by (induction es arbitrary: acc) (auto split: sum.splits dest: flatten_entry_Inr)

lemma flatten_total_iff:
  "(\<exists>ps. flatten_yocto_conf (SequenceNode m es) = Inr ps) \<longleftrightarrow> list_all entry_ok es"
  by (auto simp: flatten_yocto_conf_def flatten_entries_ok dest: flatten_entries_Inr)

lemma entry_two_elements_ok: "entry_two_elements e \<Longrightarrow> entry_ok e"
  by (cases e rule: entry_two_elements.cases) (simp_all split: if_splits)

lemma flatten_entry_not_sequence:
  "\<not> is_SequenceNode e \<Longrightarrow>
   flatten_entry e = Inl (YAMLProcessingError ''Exptected array on 'conf' node'' (start_mark e))"
  by (cases e) simp_all

lemma flatten_no_result:
  "list_ex (\<lambda>e. \<not> is_SequenceNode e) es \<Longrightarrow> \<exists>err. flatten_entries es acc = Inl err"
proof (induction es arbitrary: acc)
  case Nil
  then show ?case by simp
next
  case (Cons e es)
  show ?case
  proof (cases "flatten_entry e")
    case (Inl err)
    then show ?thesis by simp
  next
    case (Inr ps)
    then have "entry_ok e" by (rule flatten_entry_Inr)
    then have "is_SequenceNode e" by (cases e) simp_all
    with Cons.prems have "list_ex (\<lambda>e. \<not> is_SequenceNode e) es" by simp
    from Cons.IH [OF this] Inr show ?thesis by simp
  qed
qed

text \<open>
  Claim C2, as amended. When every top-level entry is a pair (a sequence of at least two
  elements whose first is not a sequence) or a group (a sequence whose first element is
  a sequence and whose members are all sequences of at least two elements), flattening
  returns the list obtained by walking the entries in order, a group contributing each
  inner pair \<open>(inner[0], inner[1])\<close> and a pair the single \<open>(entry[0], entry[1])\<close>: every
  leaf appears once, in encounter order, whether or not its key occurred before. The
  entries of scenario B flatten to the three pairs FOO, BAR, BAZ.
\<close>

theorem flatten_walks_leaves:
  "(list_all entry_ok entries \<longrightarrow>
      flatten_yocto_conf (SequenceNode m entries) = Inr (walk_leaves entries))
   \<and> flatten_yocto_conf (seq 9 conf_entries_b) =
       Inr [(PStr ''FOO'', PStr ''1''), (PStr ''BAR'', PStr ''2''), (PStr ''BAZ'', PStr ''3'')]"
proof
  show "list_all entry_ok entries \<longrightarrow>
      flatten_yocto_conf (SequenceNode m entries) = Inr (walk_leaves entries)"
    using flatten_entries_ok [of entries "[]"] by (simp add: flatten_yocto_conf_def)
  show "flatten_yocto_conf (seq 9 conf_entries_b) =
       Inr [(PStr ''FOO'', PStr ''1''), (PStr ''BAR'', PStr ''2''), (PStr ''BAZ'', PStr ''3'')]"
    by (simp add: flatten_yocto_conf_def seq_def scalar_def mk_def conf_entries_b_def)
qed

theorem flatten_walks_leaves_witness:
  "list_all entry_ok
     [seq 1 [scalar 2 ''FOO'', scalar 3 ''1''],
      seq 4 [seq 5 [scalar 6 ''FOO'', scalar 7 ''2''], seq 8 [scalar 9 ''BAR'', scalar 10 ''3'']]]
   \<and> flatten_yocto_conf (SequenceNode (mk 0)
        [seq 1 [scalar 2 ''FOO'', scalar 3 ''1''],
         seq 4 [seq 5 [scalar 6 ''FOO'', scalar 7 ''2''], seq 8 [scalar 9 ''BAR'', scalar 10 ''3'']]])
      = Inr [(PStr ''FOO'', PStr ''1''), (PStr ''FOO'', PStr ''2''), (PStr ''BAR'', PStr ''3'')]"
proof -
  have ok: "list_all entry_ok
     [seq 1 [scalar 2 ''FOO'', scalar 3 ''1''],
      seq 4 [seq 5 [scalar 6 ''FOO'', scalar 7 ''2''], seq 8 [scalar 9 ''BAR'', scalar 10 ''3'']]]"
    by (simp add: seq_def scalar_def)
  have w: "walk_leaves
     [seq 1 [scalar 2 ''FOO'', scalar 3 ''1''],
      seq 4 [seq 5 [scalar 6 ''FOO'', scalar 7 ''2''], seq 8 [scalar 9 ''BAR'', scalar 10 ''3'']]]
     = [(PStr ''FOO'', PStr ''1''), (PStr ''FOO'', PStr ''2''), (PStr ''BAR'', PStr ''3'')]"
    by (simp add: walk_leaves_def entry_leaves_def leaf_pair_def elems_def seq_def scalar_def)
  from flatten_walks_leaves [of
     "[seq 1 [scalar 2 ''FOO'', scalar 3 ''1''],
      seq 4 [seq 5 [scalar 6 ''FOO'', scalar 7 ''2''], seq 8 [scalar 9 ''BAR'', scalar 10 ''3'']]]"
     "mk 0"] ok w
  show ?thesis by simp
qed

text \<open>
  The claim as stated covers every conf whose top-level entries are sequences. An entry
  that is an empty sequence has no first element, and flattening raises.
\<close>

theorem flatten_empty_entry:
  "flatten_yocto_conf
     (SequenceNode (Mark 9 0)
        [SequenceNode (Mark 10 0) [ScalarNode (Mark 11 0) ''FOO'', ScalarNode (Mark 12 0) ''1''],
         SequenceNode (Mark 13 0) []])
   = Inl IndexError"
  by (simp add: flatten_yocto_conf_def)

text \<open>
  Claim C8, as amended. When the entries before it have been flattened without error, a
  top-level entry that is not a sequence makes flattening fail with the structural error
  \<^verbatim>\<open>YAMLProcessingError\<close> carrying the start mark of that entry, whatever follows it; and
  a conf with any top-level entry that is not a sequence yields no flattened result.
\<close>

theorem flatten_bare_scalar:
  "(\<not> is_SequenceNode entry \<and> flatten_entries pre [] = Inr ps \<longrightarrow>
      flatten_yocto_conf (SequenceNode m (pre @ entry # post)) =
        Inl (YAMLProcessingError ''Exptected array on 'conf' node'' (start_mark entry)))
   \<and> (list_ex (\<lambda>e. \<not> is_SequenceNode e) entries \<longrightarrow>
        (\<exists>err. flatten_yocto_conf (SequenceNode m entries) = Inl err))"
proof (intro conjI impI)
  assume a: "\<not> is_SequenceNode entry \<and> flatten_entries pre [] = Inr ps"
  then have "flatten_entry entry =
      Inl (YAMLProcessingError ''Exptected array on 'conf' node'' (start_mark entry))"
    by (simp add: flatten_entry_not_sequence)
  with a have "flatten_entries (pre @ entry # post) [] =
      Inl (YAMLProcessingError ''Exptected array on 'conf' node'' (start_mark entry))"
    by (simp add: flatten_entries_stop)
  then show "flatten_yocto_conf (SequenceNode m (pre @ entry # post)) =
        Inl (YAMLProcessingError ''Exptected array on 'conf' node'' (start_mark entry))"
    by (simp add: flatten_yocto_conf_def)
next
  assume "list_ex (\<lambda>e. \<not> is_SequenceNode e) entries"
  then show "\<exists>err. flatten_yocto_conf (SequenceNode m entries) = Inl err"
    using flatten_no_result [of entries "[]"] by (simp add: flatten_yocto_conf_def)
qed

theorem flatten_bare_scalar_witness:
  "\<not> is_SequenceNode (scalar 5 ''FOO=1'')
   \<and> flatten_entries [seq 1 [scalar 2 ''BAR'', scalar 3 ''2'']] [] = Inr [(PStr ''BAR'', PStr ''2'')]
   \<and> list_ex (\<lambda>e. \<not> is_SequenceNode e)
        ([seq 1 [scalar 2 ''BAR'', scalar 3 ''2'']] @ scalar 5 ''FOO=1'' # [seq 6 []])
   \<and> flatten_yocto_conf (SequenceNode (mk 0)
        ([seq 1 [scalar 2 ''BAR'', scalar 3 ''2'']] @ scalar 5 ''FOO=1'' # [seq 6 []]))
      = Inl (YAMLProcessingError ''Exptected array on 'conf' node'' (Mark 5 0))"
proof -
  have 1: "\<not> is_SequenceNode (scalar 5 ''FOO=1'')" by (simp add: scalar_def)
  have 2: "flatten_entries [seq 1 [scalar 2 ''BAR'', scalar 3 ''2'']] [] = Inr [(PStr ''BAR'', PStr ''2'')]"
    by (simp add: seq_def scalar_def)
  have 3: "list_ex (\<lambda>e. \<not> is_SequenceNode e)
        ([seq 1 [scalar 2 ''BAR'', scalar 3 ''2'']] @ scalar 5 ''FOO=1'' # [seq 6 []])"
    by (simp add: seq_def scalar_def)
  have 4: "start_mark (scalar 5 ''FOO=1'') = Mark 5 0" by (simp add: scalar_def mk_def)
  from flatten_bare_scalar [of "scalar 5 ''FOO=1''" "[seq 1 [scalar 2 ''BAR'', scalar 3 ''2'']]"
      "[(PStr ''BAR'', PStr ''2'')]" "mk 0" "[seq 6 []]" "[]"] 1 2 4
  have "flatten_yocto_conf (SequenceNode (mk 0)
        ([seq 1 [scalar 2 ''BAR'', scalar 3 ''2'']] @ scalar 5 ''FOO=1'' # [seq 6 []]))
      = Inl (YAMLProcessingError ''Exptected array on 'conf' node'' (Mark 5 0))"
    by simp
  with 1 2 3 show ?thesis by (intro conjI)
qed

text \<open>
  The claim as stated promises the structural error for every entry that is not a
  sequence. Behind an empty entry the bare scalar is never reached: the error is the
  \<^verbatim>\<open>IndexError\<close> of the empty entry.
\<close>

theorem flatten_scalar_after_empty_entry:
  "flatten_yocto_conf
     (SequenceNode (Mark 9 0) [SequenceNode (Mark 10 0) [], ScalarNode (Mark 11 0) ''FOO=1''])
   = Inl IndexError"
  by (simp add: flatten_yocto_conf_def)

text \<open>
  Claim C10, as amended. Flattening is partial on confs whose top-level entries are all
  sequences: reached after entries that flatten without error, an empty entry, an entry
  of one element that is not a sequence, and a group with a member of fewer than two
  elements (behind members of at least two) each raise \<^verbatim>\<open>IndexError\<close>, which is not
  the structural error and carries no position. Flattening returns a result exactly
  when every top-level entry is a pair (at least two elements, the first not a sequence)
  or a group (the first element a sequence, every member a sequence of at least two
  elements). That every entry and every member of a group has at least two elements is
  enough for this, and more than is needed.
\<close>

theorem flatten_partial:
  "(flatten_entries pre [] = Inr ps \<longrightarrow>
      flatten_yocto_conf (SequenceNode m (pre @ SequenceNode m1 [] # post)) = Inl IndexError)
   \<and> (flatten_entries pre [] = Inr ps \<and> \<not> is_SequenceNode x \<longrightarrow>
      flatten_yocto_conf (SequenceNode m (pre @ SequenceNode m1 [x] # post)) = Inl IndexError)
   \<and> (flatten_entries pre [] = Inr ps \<and> list_all two_elements members \<and> length short < 2 \<longrightarrow>
      flatten_yocto_conf
        (SequenceNode m (pre @ SequenceNode m1 (members @ SequenceNode m2 short # rest) # post))
      = Inl IndexError)
   \<and> ((\<exists>result. flatten_yocto_conf (SequenceNode m entries) = Inr result)
        = list_all entry_ok entries)
   \<and> (list_all entry_two_elements entries \<longrightarrow> list_all entry_ok entries)"
proof (intro conjI impI)
  assume "flatten_entries pre [] = Inr ps"
  then show "flatten_yocto_conf (SequenceNode m (pre @ SequenceNode m1 [] # post)) = Inl IndexError"
    by (simp add: flatten_yocto_conf_def flatten_entries_stop)
next
  assume "flatten_entries pre [] = Inr ps \<and> \<not> is_SequenceNode x"
  then show "flatten_yocto_conf (SequenceNode m (pre @ SequenceNode m1 [x] # post)) = Inl IndexError"
    by (simp add: flatten_yocto_conf_def flatten_entries_stop)
next
  assume a: "flatten_entries pre [] = Inr ps \<and> list_all two_elements members \<and> length short < 2"
  then have s: "pair_of (SequenceNode m2 short) = Inl IndexError"
    by (cases "SequenceNode m2 short" rule: pair_of.cases) simp_all
  have "map_err pair_of (members @ SequenceNode m2 short # rest) = Inl IndexError"
    using a s by (induction members) (simp_all add: pair_of_two_elements)
  moreover have "is_SequenceNode (hd (members @ SequenceNode m2 short # rest))"
    using a by (cases members; cases "hd members") simp_all
  ultimately have "flatten_entry (SequenceNode m1 (members @ SequenceNode m2 short # rest))
      = Inl IndexError"
    by (cases "members @ SequenceNode m2 short # rest") simp_all
  with a show "flatten_yocto_conf
        (SequenceNode m (pre @ SequenceNode m1 (members @ SequenceNode m2 short # rest) # post))
      = Inl IndexError"
    by (simp add: flatten_yocto_conf_def flatten_entries_stop)
next
  show "(\<exists>result. flatten_yocto_conf (SequenceNode m entries) = Inr result)
        = list_all entry_ok entries"
    by (rule flatten_total_iff)
next
  assume "list_all entry_two_elements entries"
  then show "list_all entry_ok entries"
    by (induction entries) (simp_all add: entry_two_elements_ok)
qed

theorem flatten_partial_witness:
  "flatten_entries [seq 1 [scalar 2 ''FOO'', scalar 3 ''1'']] [] = Inr [(PStr ''FOO'', PStr ''1'')]
   \<and> flatten_yocto_conf (SequenceNode (mk 0)
        ([seq 1 [scalar 2 ''FOO'', scalar 3 ''1'']] @ SequenceNode (mk 4) [] # [])) = Inl IndexError
   \<and> \<not> is_SequenceNode (scalar 5 ''BAR'')
   \<and> flatten_yocto_conf (SequenceNode (mk 0)
        ([seq 1 [scalar 2 ''FOO'', scalar 3 ''1'']] @ SequenceNode (mk 4) [scalar 5 ''BAR''] # []))
       = Inl IndexError
   \<and> list_all two_elements [seq 6 [scalar 7 ''BAR'', scalar 8 ''2'']]
   \<and> length [scalar 10 ''BAZ''] < 2
   \<and> flatten_yocto_conf (SequenceNode (mk 0)
        ([seq 1 [scalar 2 ''FOO'', scalar 3 ''1'']] @
         SequenceNode (mk 4)
           ([seq 6 [scalar 7 ''BAR'', scalar 8 ''2'']] @ SequenceNode (mk 9) [scalar 10 ''BAZ''] # [])
         # []))
       = Inl IndexError
   \<and> list_all entry_two_elements conf_entries_b
   \<and> list_all entry_ok conf_entries_b
   \<and> (\<exists>result. flatten_yocto_conf (SequenceNode (mk 9) conf_entries_b) = Inr result)"
proof -
  have 1: "flatten_entries [seq 1 [scalar 2 ''FOO'', scalar 3 ''1'']] [] = Inr [(PStr ''FOO'', PStr ''1'')]"
    by (simp add: seq_def scalar_def)
  have 2: "\<not> is_SequenceNode (scalar 5 ''BAR'')" by (simp add: scalar_def)
  have 3: "list_all two_elements [seq 6 [scalar 7 ''BAR'', scalar 8 ''2'']]"
    by (simp add: seq_def)
  have 4: "length [scalar 10 ''BAZ''] < 2" by simp
  have 5: "list_all entry_two_elements conf_entries_b"
    by (simp add: conf_entries_b_def seq_def scalar_def)
  note t = flatten_partial [of "[seq 1 [scalar 2 ''FOO'', scalar 3 ''1'']]"
      "[(PStr ''FOO'', PStr ''1'')]" "mk 0" "mk 4" "[]" "scalar 5 ''BAR''"
      "[seq 6 [scalar 7 ''BAR'', scalar 8 ''2'']]" "[scalar 10 ''BAZ'']" "mk 9" "[]"
      conf_entries_b]
  from t 1 have a: "flatten_yocto_conf (SequenceNode (mk 0)
        ([seq 1 [scalar 2 ''FOO'', scalar 3 ''1'']] @ SequenceNode (mk 4) [] # [])) = Inl IndexError"
    by blast
  from t 1 2 have b: "flatten_yocto_conf (SequenceNode (mk 0)
        ([seq 1 [scalar 2 ''FOO'', scalar 3 ''1'']] @ SequenceNode (mk 4) [scalar 5 ''BAR''] # []))
       = Inl IndexError"
    by blast
  from t 1 3 4 have c: "flatten_yocto_conf (SequenceNode (mk 0)
        ([seq 1 [scalar 2 ''FOO'', scalar 3 ''1'']] @
         SequenceNode (mk 4)
           ([seq 6 [scalar 7 ''BAR'', scalar 8 ''2'']] @ SequenceNode (mk 9) [scalar 10 ''BAZ''] # [])
         # []))
       = Inl IndexError"
    by blast
  note u = flatten_partial [of "[]" "[]" "mk 9" "mk 0" "[]" "scalar 0 []" "[]" "[]" "mk 0" "[]"
      conf_entries_b]
  from u 5 have e: "list_all entry_ok conf_entries_b" by blast
  from u e have d: "\<exists>result. flatten_yocto_conf (SequenceNode (mk 9) conf_entries_b) = Inr result"
    by blast
  from 1 a 2 b 3 4 c 5 e d show ?thesis by (intro conjI)
qed

text \<open>
  The claim as stated makes two elements in every entry a condition without which
  flattening is not total. A group of a single pair has one element and flattens.
\<close>

theorem flatten_single_member_group:
  "\<not> entry_two_elements
       (SequenceNode (Mark 1 0)
          [SequenceNode (Mark 2 0) [ScalarNode (Mark 3 0) ''K'', ScalarNode (Mark 4 0) ''V'']])
   \<and> flatten_yocto_conf
       (SequenceNode (Mark 0 0)
          [SequenceNode (Mark 1 0)
             [SequenceNode (Mark 2 0) [ScalarNode (Mark 3 0) ''K'', ScalarNode (Mark 4 0) ''V'']]])
     = Inr [(PStr ''K'', PStr ''V'')]"
  by (simp add: flatten_yocto_conf_def)

section \<open>Escaping of the conf lines\<close>

lemma str_replace_append:
  "str_replace c n (a @ b) = str_replace c n a @ str_replace c n b"
  by (simp add: str_replace_def)

lemma str_replace_Cons:
  "str_replace c n (x # xs) = (if x = c then n else [x]) @ str_replace c n xs"
  by (simp add: str_replace_def)

lemma str_replace_Nil: "str_replace c n [] = []"
  by (simp add: str_replace_def)

lemma ninja_expand_other:
  "c \<noteq> CHR ''$'' \<Longrightarrow> \<not> ninja_stops c \<Longrightarrow>
   ninja_expand (c # r) = map_option ((#) c) (ninja_expand r)"
  by (cases r) simp_all

lemma ninja_expand_doubled:
  "\<not> list_ex ninja_stops s \<Longrightarrow> ninja_expand (str_replace (CHR ''$'') ''$$'' s) = Some s"
proof (induction s)
  case Nil
  then show ?case by (simp add: str_replace_Nil)
next
  case (Cons c cs)
  show ?case
  proof (cases "c = CHR ''$''")
    case True
    then show ?thesis using Cons by (simp add: str_replace_Cons)
  next
    case False
    then show ?thesis using Cons by (simp add: str_replace_Cons ninja_expand_other)
  qed
qed

lemma ninja_expand_stops:
  "list_ex ninja_stops s \<Longrightarrow> ninja_expand s = None"
proof (induction s rule: ninja_expand.induct)
  case 1
  then show ?case by simp
next
  case (2 c)
  then show ?case by simp
next
  case (3 c d ds)
  show ?case
  proof (cases "c = CHR ''$''")
    case True
    have "\<not> ninja_stops c" using True by (simp add: ninja_stops_def)
    show ?thesis
    proof (cases "d = CHR ''$''")
      case d: True
      have "\<not> ninja_stops d" using d by (simp add: ninja_stops_def)
      with \<open>\<not> ninja_stops c\<close> 3 True d show ?thesis by simp
    next
      case False
      with True show ?thesis by simp
    qed
  next
    case False
    with 3 show ?thesis by auto
  qed
qed

lemma stops_quoted:
  "list_ex ninja_stops (str_replace squote [squote, dquote, squote, dquote, squote] s)
   = list_ex ninja_stops s"
  by (induction s) (simp_all add: str_replace_Cons str_replace_Nil squote_def dquote_def ninja_stops_def)

lemma stops_doubled:
  "list_ex ninja_stops (str_replace (CHR ''$'') ''$$'' s) = list_ex ninja_stops s"
  by (induction s) (simp_all add: str_replace_Cons str_replace_Nil ninja_stops_def)

lemma quote_dollar_commute:
  "str_replace squote [squote, dquote, squote, dquote, squote] (str_replace (CHR ''$'') ''$$'' s)
   = str_replace (CHR ''$'') ''$$'' (str_replace squote [squote, dquote, squote, dquote, squote] s)"
  by (induction s) (simp_all add: str_replace_Cons str_replace_Nil squote_def dquote_def)

lemma shell_word_single_quoted:
  "shell_word Single (str_replace squote [squote, dquote, squote, dquote, squote] s @ [squote])
   = Some s"
proof (induction s)
  case Nil
  then show ?case by (simp add: str_replace_Nil)
next
  case (Cons c cs)
  show ?case
  proof (cases "c = squote")
    case True
    have "shell_word Single
        (str_replace squote [squote, dquote, squote, dquote, squote] (c # cs) @ [squote])
      = shell_word Single ([squote, dquote, squote, dquote, squote] @
          (str_replace squote [squote, dquote, squote, dquote, squote] cs @ [squote]))"
      using True by (simp add: str_replace_Cons)
    also have "\<dots> = map_option ((#) squote)
        (shell_word Single (str_replace squote [squote, dquote, squote, dquote, squote] cs @ [squote]))"
      by (simp add: squote_def dquote_def)
    finally show ?thesis using Cons True by simp
  next
    case False
    then show ?thesis using Cons by (simp add: str_replace_Cons)
  qed
qed

lemma find_unsafe_space: "find_unsafe (a @ CHR '' '' # b)"
  by (simp add: find_unsafe_def safe_chars_def)

lemma shlex_quote_line:
  "shlex_quote (a @ CHR '' '' # b) =
     [squote] @ str_replace squote [squote, dquote, squote, dquote, squote] (a @ CHR '' '' # b)
     @ [squote]"
  using find_unsafe_space [of a b] by (simp add: shlex_quote_def)

lemma doubled_line:
  "str_replace (CHR ''$'') ''$$'' k @ '' = '' @ [dquote] @ str_replace (CHR ''$'') ''$$'' v @ [dquote]
   = str_replace (CHR ''$'') ''$$'' (k @ '' = '' @ [dquote] @ v @ [dquote])"
  by (simp add: str_replace_append str_replace_Cons str_replace_Nil dquote_def)

lemma quoted_doubled_line:
  "shlex_quote (str_replace (CHR ''$'') ''$$'' k @ '' = '' @ [dquote]
                 @ str_replace (CHR ''$'') ''$$'' v @ [dquote])
   = str_replace (CHR ''$'') ''$$''
       ([squote] @ str_replace squote [squote, dquote, squote, dquote, squote]
                     (k @ '' = '' @ [dquote] @ v @ [dquote]) @ [squote])"
proof -
  have "shlex_quote (str_replace (CHR ''$'') ''$$'' k @ '' = '' @ [dquote]
                 @ str_replace (CHR ''$'') ''$$'' v @ [dquote])
      = [squote] @ str_replace squote [squote, dquote, squote, dquote, squote]
          (str_replace (CHR ''$'') ''$$'' k @ '' = '' @ [dquote]
                 @ str_replace (CHR ''$'') ''$$'' v @ [dquote]) @ [squote]"
    using shlex_quote_line [of "str_replace (CHR ''$'') ''$$'' k"
        "''= '' @ [dquote] @ str_replace (CHR ''$'') ''$$'' v @ [dquote]"]
    by simp
  also have "\<dots> = [squote] @ str_replace squote [squote, dquote, squote, dquote, squote]
          (str_replace (CHR ''$'') ''$$'' (k @ '' = '' @ [dquote] @ v @ [dquote])) @ [squote]"
    by (simp only: doubled_line)
  also have "\<dots> = [squote] @ str_replace (CHR ''$'') ''$$''
          (str_replace squote [squote, dquote, squote, dquote, squote]
             (k @ '' = '' @ [dquote] @ v @ [dquote])) @ [squote]"
    by (simp only: quote_dollar_commute)
  also have "\<dots> = str_replace (CHR ''$'') ''$$''
       ([squote] @ str_replace squote [squote, dquote, squote, dquote, squote]
                     (k @ '' = '' @ [dquote] @ v @ [dquote]) @ [squote])"
    by (simp add: str_replace_append str_replace_Cons str_replace_Nil squote_def)
  finally show ?thesis .
qed

lemma stops_quoted_line:
  "list_ex ninja_stops
     ([squote] @ str_replace squote [squote, dquote, squote, dquote, squote]
                     (k @ '' = '' @ [dquote] @ v @ [dquote]) @ [squote])
   = list_ex ninja_stops (k @ v)"
  by (simp add: stops_quoted) (simp add: squote_def dquote_def ninja_stops_def)

lemma expand_then_unquote_line:
  assumes "\<not> list_ex ninja_stops (k @ v)"
  shows "expand_then_unquote
     (shlex_quote (str_replace (CHR ''$'') ''$$'' k @ '' = '' @ [dquote]
                    @ str_replace (CHR ''$'') ''$$'' v @ [dquote]))
   = Some (k @ '' = '' @ [dquote] @ v @ [dquote])"
proof -
  have c: "\<not> list_ex ninja_stops
     ([squote] @ str_replace squote [squote, dquote, squote, dquote, squote]
                     (k @ '' = '' @ [dquote] @ v @ [dquote]) @ [squote])"
    using assms by (simp only: stops_quoted_line simp_thms)
  have "shell_unquote ([squote] @ str_replace squote [squote, dquote, squote, dquote, squote]
                     (k @ '' = '' @ [dquote] @ v @ [dquote]) @ [squote])
      = shell_word Single (str_replace squote [squote, dquote, squote, dquote, squote]
                     (k @ '' = '' @ [dquote] @ v @ [dquote]) @ [squote])"
    by (simp add: shell_unquote_def)
  then show ?thesis
    by (simp only: expand_then_unquote_def quoted_doubled_line ninja_expand_doubled [OF c]
          option.case shell_word_single_quoted)
qed

lemma expand_then_unquote_stops:
  assumes "list_ex ninja_stops (k @ v)"
  shows "expand_then_unquote
     (shlex_quote (str_replace (CHR ''$'') ''$$'' k @ '' = '' @ [dquote]
                    @ str_replace (CHR ''$'') ''$$'' v @ [dquote]))
   = None"
proof -
  have "list_ex ninja_stops
     ([squote] @ str_replace squote [squote, dquote, squote, dquote, squote]
                     (k @ '' = '' @ [dquote] @ v @ [dquote]) @ [squote])"
    using assms by (simp only: stops_quoted_line)
  then have "list_ex ninja_stops (str_replace (CHR ''$'') ''$$''
       ([squote] @ str_replace squote [squote, dquote, squote, dquote, squote]
                     (k @ '' = '' @ [dquote] @ v @ [dquote]) @ [squote]))"
    by (simp only: stops_doubled)
  then have "ninja_expand (str_replace (CHR ''$'') ''$$''
       ([squote] @ str_replace squote [squote, dquote, squote, dquote, squote]
                     (k @ '' = '' @ [dquote] @ v @ [dquote]) @ [squote])) = None"
    by (rule ninja_expand_stops)
  then show ?thesis
    by (simp only: expand_then_unquote_def quoted_doubled_line option.case)
qed

text \<open>
  Claim C4, as amended. The line materialized for a directive of key \<open>k\<close> and value \<open>v\<close>
  is \<^verbatim>\<open>shlex.quote\<close> applied to the assignment built from \<open>k\<close> and \<open>v\<close> with every
  \<^verbatim>\<open>$\<close> doubled: the doubling comes first, the shell quoting second. When neither \<open>k\<close>
  nor \<open>v\<close> holds a newline, a carriage return or a NUL character, the line read back in
  that order, by ninja's expansion and then by the shell's quote removal, is one word
  and gives the assignment of the original \<open>k\<close> and \<open>v\<close>, whether or not they hold a
  \<^verbatim>\<open>$\<close>. With one of the three characters the line is not read back: nothing in the
  line protects them from ninja.
\<close>

theorem conf_line_round_trip:
  "conf_line (PStr k, PStr v) =
     Inr (shlex_quote (str_replace (CHR ''$'') ''$$'' k @ '' = '' @ [dquote]
                        @ str_replace (CHR ''$'') ''$$'' v @ [dquote]))
   \<and> (\<exists>line. conf_line (PStr k, PStr v) = Inr line
        \<and> expand_then_unquote line =
            (if list_ex ninja_stops (k @ v) then None
             else Some (k @ '' = '' @ [dquote] @ v @ [dquote])))"
  using expand_then_unquote_line [of k v] expand_then_unquote_stops [of k v]
  by (simp add: conf_line_def)

theorem conf_line_round_trip_witness:
  "\<not> list_ex ninja_stops (''PATH'' @ ''$HOME/bin'')
   \<and> conf_line (PStr ''PATH'', PStr ''$HOME/bin'') =
     Inr ([squote] @ ''PATH = '' @ [dquote] @ ''$$HOME/bin'' @ [dquote] @ [squote])
   \<and> expand_then_unquote ([squote] @ ''PATH = '' @ [dquote] @ ''$$HOME/bin'' @ [dquote] @ [squote])
       = Some (''PATH = '' @ [dquote] @ ''$HOME/bin'' @ [dquote])"
proof -
  have c: "\<not> list_ex ninja_stops (''PATH'' @ ''$HOME/bin'')"
    by (simp add: ninja_stops_def)
  have e: "conf_line (PStr ''PATH'', PStr ''$HOME/bin'') =
     Inr ([squote] @ ''PATH = '' @ [dquote] @ ''$$HOME/bin'' @ [dquote] @ [squote])"
    by (simp add: conf_line_def path_defs)
  from conf_line_round_trip [of "''PATH''" "''$HOME/bin''"] c obtain line where
    "conf_line (PStr ''PATH'', PStr ''$HOME/bin'') = Inr line"
    "expand_then_unquote line = Some (''PATH = '' @ [dquote] @ ''$HOME/bin'' @ [dquote])"
    by auto
  with e c show ?thesis by simp
qed

text \<open>
  The claim as stated covers every value that holds a \<^verbatim>\<open>$\<close>. A value of two lines
  keeps its newline in the materialized line, where it ends ninja's reading.
\<close>

theorem conf_line_newline_lost:
  "conf_line (PStr ''K'', PStr (''a'' @ [CHR 0x0A] @ ''$b'')) =
     Inr ([squote] @ ''K = '' @ [dquote] @ ''a'' @ [CHR 0x0A] @ ''$$b'' @ [dquote] @ [squote])
   \<and> expand_then_unquote
        ([squote] @ ''K = '' @ [dquote] @ ''a'' @ [CHR 0x0A] @ ''$$b'' @ [dquote] @ [squote])
       = None"
  by (simp add: conf_line_def path_defs expand_then_unquote_def ninja_stops_def)

section \<open>External sources\<close>

lemma startswith_sep_Cons: "startswith_sep s \<longleftrightarrow> (\<exists>r. s = CHR ''/'' # r)"
  by (cases s) (simp_all add: startswith_sep_def)

lemma initial_slashes_pos: "startswith_sep p \<Longrightarrow> 0 < initial_slashes p"
  by (simp add: initial_slashes_def)

lemma startswith_sep_normpath:
  assumes "startswith_sep p"
  shows "startswith_sep (normpath p)"
proof -
  from assms have ne: "p \<noteq> []" by (auto simp: startswith_sep_Cons)
  from initial_slashes_pos [OF assms] obtain n where n: "initial_slashes p = Suc n"
    by (cases "initial_slashes p") simp_all
  show ?thesis
    using ne by (simp add: normpath_def Let_def n startswith_sep_def)
qed

lemma startswith_sep_join:
  assumes "startswith_sep d"
  shows "startswith_sep (posixpath_join d [p])"
  using assms by (auto simp: posixpath_join_def join_step_def startswith_sep_Cons)

lemma startswith_sep_abspath: "startswith_sep d \<Longrightarrow> startswith_sep (abspath d p)"
  by (simp add: abspath_def startswith_sep_normpath startswith_sep_join)

lemma scalars_values:
  "list_all is_ScalarNode xs \<Longrightarrow> map node_value xs = map PStr (map scalar_str xs)"
proof (induction xs)
  case Nil
  then show ?case by simp
next
  case (Cons x xs)
  then show ?case by (cases x) simp_all
qed

lemma external_src_path_ok:
  assumes "src_value_ok v"
  shows "external_src_path E v = Inr (abspath (cwd E) (src_path v))"
proof (cases v)
  case (ScalarNode m s)
  then show ?thesis by (simp add: external_src_path_def)
next
  case (SequenceNode m xs)
  with assms obtain y ys where xs: "xs = y # ys" and sc: "list_all is_ScalarNode (y # ys)"
    by (cases xs) auto
  have "map node_value (y # ys) = PStr (scalar_str y) # map PStr (map scalar_str ys)"
    using scalars_values [OF sc] by simp
  then have "os_path_join (map node_value (y # ys))
      = Inr (posixpath_join (scalar_str y) (map scalar_str ys))"
    by (simp only: os_path_join_strs)
  with SequenceNode xs show ?thesis by (simp add: external_src_path_def)
next
  case (MappingNode m kvs)
  with assms show ?thesis by simp
qed

lemma map_err_external_src:
  "list_all (\<lambda>kv. src_value_ok (snd kv)) kvs \<Longrightarrow>
   map_err (external_src_entry E) kvs =
     Inr (map (\<lambda>kv. (''EXTERNALSRC_pn-'' @ py_format E (node_value (fst kv)),
                      abspath (cwd E) (src_path (snd kv)))) kvs)"
  by (induction kvs) (simp_all add: external_src_entry_def external_src_path_ok)

text \<open>
  Claim C5, as amended. When the external source mapping gives every identifier a plain
  path or a sequence of at least one scalar path segment, \<^verbatim>\<open>_get_external_src\<close> returns
  one entry per pair of the mapping, in the order of the mapping: the key is
  \<^verbatim>\<open>EXTERNALSRC_pn-\<close> followed by the identifier, the value is the plain path, or the
  segments joined, made absolute; with an absolute working directory every such path
  starts with a slash. In \<^verbatim>\<open>local_conf\<close> these entries follow all the entries flattened
  from \<^verbatim>\<open>conf\<close>.
\<close>

theorem external_src_overrides:
  assumes "get_mapping_node E (conf self) ''external_src'' = Inr (Some (MappingNode m kvs))"
    and "list_all (\<lambda>kv. src_value_ok (snd kv)) kvs"
    and "startswith_sep (cwd E)"
    and "get_sequence_node E (conf self) ''conf'' = Inr local_conf_node"
    and "(case local_conf_node of None \<Rightarrow> Inr [] | Some n \<Rightarrow> flatten_yocto_conf n) = Inr declared"
  shows "get_external_src E self =
      Inr (map (\<lambda>kv. (''EXTERNALSRC_pn-'' @ py_format E (node_value (fst kv)),
                       abspath (cwd E) (src_path (snd kv)))) kvs)
    \<and> list_all (\<lambda>kv. startswith_sep (abspath (cwd E) (src_path (snd kv)))) kvs
    \<and> gen_local_conf E self =
      Inr (declared @
           map (\<lambda>kv. (PStr (''EXTERNALSRC_pn-'' @ py_format E (node_value (fst kv))),
                       PStr (abspath (cwd E) (src_path (snd kv))))) kvs)"
proof -
  have 1: "get_external_src E self =
      Inr (map (\<lambda>kv. (''EXTERNALSRC_pn-'' @ py_format E (node_value (fst kv)),
                       abspath (cwd E) (src_path (snd kv)))) kvs)"
    using assms(1) map_err_external_src [OF assms(2), of E] by (simp add: get_external_src_def)
  have 2: "list_all (\<lambda>kv. startswith_sep (abspath (cwd E) (src_path (snd kv)))) kvs"
    using assms(3) by (simp add: list_all_iff startswith_sep_abspath)
  have 3: "gen_local_conf E self =
      Inr (declared @
           map (\<lambda>kv. (PStr (''EXTERNALSRC_pn-'' @ py_format E (node_value (fst kv))),
                       PStr (abspath (cwd E) (src_path (snd kv))))) kvs)"
    using assms(4,5) 1 by (simp add: gen_local_conf_def comp_def)
  from 1 2 3 show ?thesis by (intro conjI)
qed

lemma sample_full_pre:
  "get_mapping_node sample_env (conf builder_full) ''external_src'' =
     Inr (Some (MappingNode (Mark 30 0)
       [(ScalarNode (Mark 31 0) ''mylib'',
         SequenceNode (Mark 31 0) [ScalarNode (Mark 32 0) ''srcs'', ScalarNode (Mark 33 0) ''mylib''])]))"
  "get_sequence_node sample_env (conf builder_full) ''conf'' =
     Inr (Some (seq 9 (conf_entries_b @ [seq 20 [scalar 21 ''PATH'', scalar 22 ''$HOME/bin'']])))"
  "flatten_yocto_conf (seq 9 (conf_entries_b @ [seq 20 [scalar 21 ''PATH'', scalar 22 ''$HOME/bin'']]))
     = Inr [(PStr ''FOO'', PStr ''1''), (PStr ''BAR'', PStr ''2''), (PStr ''BAZ'', PStr ''3''),
            (PStr ''PATH'', PStr ''$HOME/bin'')]"
  "startswith_sep (cwd sample_env)"
  by (simp_all add: sample_defs flatten_yocto_conf_def startswith_sep_def)

theorem external_src_overrides_witness:
  "get_mapping_node sample_env (conf builder_full) ''external_src'' =
     Inr (Some (MappingNode (Mark 30 0)
       [(ScalarNode (Mark 31 0) ''mylib'',
         SequenceNode (Mark 31 0) [ScalarNode (Mark 32 0) ''srcs'', ScalarNode (Mark 33 0) ''mylib''])]))
   \<and> list_all (\<lambda>kv. src_value_ok (snd kv))
        [(ScalarNode (Mark 31 0) ''mylib'',
          SequenceNode (Mark 31 0) [ScalarNode (Mark 32 0) ''srcs'', ScalarNode (Mark 33 0) ''mylib''])]
   \<and> startswith_sep (cwd sample_env)
   \<and> get_external_src sample_env builder_full =
        Inr [(''EXTERNALSRC_pn-mylib'', ''/home/user/srcs/mylib'')]
   \<and> gen_local_conf sample_env builder_full =
        Inr [(PStr ''FOO'', PStr ''1''), (PStr ''BAR'', PStr ''2''), (PStr ''BAZ'', PStr ''3''),
             (PStr ''PATH'', PStr ''$HOME/bin''),
             (PStr ''EXTERNALSRC_pn-mylib'', PStr ''/home/user/srcs/mylib'')]"
proof -
  have ok: "list_all (\<lambda>kv. src_value_ok (snd kv))
        [(ScalarNode (Mark 31 0) ''mylib'',
          SequenceNode (Mark 31 0) [ScalarNode (Mark 32 0) ''srcs'', ScalarNode (Mark 33 0) ''mylib''])]"
    by simp
  have d: "(case Some (seq 9 (conf_entries_b @ [seq 20 [scalar 21 ''PATH'', scalar 22 ''$HOME/bin'']]))
            of None \<Rightarrow> Inr [] | Some n \<Rightarrow> flatten_yocto_conf n)
     = Inr [(PStr ''FOO'', PStr ''1''), (PStr ''BAR'', PStr ''2''), (PStr ''BAZ'', PStr ''3''),
            (PStr ''PATH'', PStr ''$HOME/bin'')]"
    by (simp add: sample_full_pre(3))
  have p: "abspath (cwd sample_env) (posixpath_join ''srcs'' [''mylib'']) = ''/home/user/srcs/mylib''"
    by (simp add: sample_env_def path_defs)
  from external_src_overrides [OF sample_full_pre(1) ok sample_full_pre(4) sample_full_pre(2) d]
  have "get_external_src sample_env builder_full =
        Inr [(''EXTERNALSRC_pn-mylib'', ''/home/user/srcs/mylib'')]
   \<and> gen_local_conf sample_env builder_full =
        Inr [(PStr ''FOO'', PStr ''1''), (PStr ''BAR'', PStr ''2''), (PStr ''BAZ'', PStr ''3''),
             (PStr ''PATH'', PStr ''$HOME/bin''),
             (PStr ''EXTERNALSRC_pn-mylib'', PStr ''/home/user/srcs/mylib'')]"
    by (simp add: p py_format_def)
  with sample_full_pre(1) ok sample_full_pre(4) show ?thesis by (intro conjI) simp_all
qed

text \<open>
  The claim as stated covers every external source mapping. A value that is an empty
  sequence makes \<^verbatim>\<open>os.path.join\<close> raise, and no entry is produced.
\<close>

theorem external_src_empty_segments:
  "get_mapping_node sample_env (conf builder_e) ''external_src'' =
     Inr (Some (MappingNode (Mark 30 0)
       [(ScalarNode (Mark 31 0) ''mylib'', SequenceNode (Mark 31 0) [])]))
   \<and> get_external_src sample_env builder_e = Inl TypeError
   \<and> fst (gen_build sample_env builder_e []) = Inl TypeError"
  by (simp add: sample_defs builder_defs path_defs)

section \<open>Repeated runs\<close>

subsection \<open>The lists in the heap\<close>

lemma heap_same: "h = st_heap s \<Longrightarrow> s\<lparr>st_heap := h\<rparr> = s"
  by simp

lemma env_at_heap [simp]: "env_at C (s\<lparr>st_heap := h\<rparr>) = env_at C s"
  by (simp add: env_at_def)

lemma env_at_generator [simp]: "env_at C (s\<lparr>st_generator := g\<rparr>) = env_at C s"
  by (simp add: env_at_def)

lemma list_extend_at:
  assumes "a < length (st_heap s)" and "st_heap s ! a = Pairs acc"
  shows "list_extend a ps s = s\<lparr>st_heap := (st_heap s)[a := Pairs (acc @ ps)]\<rparr>"
  using assms by (simp add: list_extend_def pairs_at_def)

lemma flatten_loop_st_spec:
  assumes "a < length (st_heap s)" and "st_heap s ! a = Pairs acc"
  shows "\<exists>acc'. flatten_loop_st es a s =
           ((case flatten_entries es acc of Inl e \<Rightarrow> Some e | Inr r \<Rightarrow> None),
            s\<lparr>st_heap := (st_heap s)[a := Pairs acc']\<rparr>)
         \<and> (\<forall>r. flatten_entries es acc = Inr r \<longrightarrow> acc' = r)"
  using assms
proof (induction es arbitrary: s acc)
  case Nil
  have "s = s\<lparr>st_heap := (st_heap s)[a := Pairs acc]\<rparr>"
    using Nil by (intro heap_same [symmetric]) (simp add: list_update_same_conv)
  then show ?case by (intro exI [of _ acc]) simp
next
  case (Cons e es)
  show ?case
  proof (cases "flatten_entry e")
    case (Inl err)
    have "s = s\<lparr>st_heap := (st_heap s)[a := Pairs acc]\<rparr>"
      using Cons.prems by (intro heap_same [symmetric]) (simp add: list_update_same_conv)
    with Inl show ?thesis by (intro exI [of _ acc]) simp
  next
    case (Inr ps)
    let ?s1 = "s\<lparr>st_heap := (st_heap s)[a := Pairs (acc @ ps)]\<rparr>"
    have e: "list_extend a ps s = ?s1"
      using Cons.prems by (rule list_extend_at)
    have "a < length (st_heap ?s1)" "st_heap ?s1 ! a = Pairs (acc @ ps)"
      using Cons.prems by simp_all
    from Cons.IH [OF this] obtain acc' where
      l: "flatten_loop_st es a ?s1 =
           ((case flatten_entries es (acc @ ps) of Inl e \<Rightarrow> Some e | Inr r \<Rightarrow> None),
            ?s1\<lparr>st_heap := (st_heap ?s1)[a := Pairs acc']\<rparr>)"
      and r: "\<forall>r. flatten_entries es (acc @ ps) = Inr r \<longrightarrow> acc' = r"
      by blast
    have "?s1\<lparr>st_heap := (st_heap ?s1)[a := Pairs acc']\<rparr> =
        s\<lparr>st_heap := (st_heap s)[a := Pairs acc']\<rparr>"
      by simp
    with l e Inr r show ?thesis
      by (intro exI [of _ acc']) simp
  qed
qed

lemma flatten_yocto_conf_st_spec:
  "\<exists>c. flatten_yocto_conf_st cnf s =
        ((case flatten_yocto_conf cnf of Inl e \<Rightarrow> Inl e | Inr r \<Rightarrow> Inr (length (st_heap s))),
         s\<lparr>st_heap := st_heap s @ [Pairs c]\<rparr>)
      \<and> (\<forall>r. flatten_yocto_conf cnf = Inr r \<longrightarrow> c = r)"
proof (cases cnf)
  case (ScalarNode m str)
  then show ?thesis
    by (intro exI [of _ "[]"]) (simp add: flatten_yocto_conf_st_def flatten_yocto_conf_def new_list_def)
next
  case (MappingNode m kvs)
  then show ?thesis
    by (intro exI [of _ "[]"]) (simp add: flatten_yocto_conf_st_def flatten_yocto_conf_def new_list_def)
next
  case (SequenceNode m entries)
  let ?s1 = "s\<lparr>st_heap := st_heap s @ [Pairs []]\<rparr>"
  let ?a = "length (st_heap s)"
  have "?a < length (st_heap ?s1)" "st_heap ?s1 ! ?a = Pairs []" by simp_all
  from flatten_loop_st_spec [OF this, of entries] obtain acc' where
    l: "flatten_loop_st entries ?a ?s1 =
           ((case flatten_entries entries [] of Inl e \<Rightarrow> Some e | Inr r \<Rightarrow> None),
            ?s1\<lparr>st_heap := (st_heap ?s1)[?a := Pairs acc']\<rparr>)"
    and r: "\<forall>r. flatten_entries entries [] = Inr r \<longrightarrow> acc' = r"
    by blast
  have "?s1\<lparr>st_heap := (st_heap ?s1)[?a := Pairs acc']\<rparr> = s\<lparr>st_heap := st_heap s @ [Pairs acc']\<rparr>"
    by simp
  with l r SequenceNode show ?thesis
    by (intro exI [of _ acc'])
       (simp add: flatten_yocto_conf_st_def flatten_yocto_conf_def new_list_def split: sum.splits)
qed

lemma external_src_loop_st_spec:
  assumes "a < length (st_heap s)" and "st_heap s ! a = Pairs acc"
  shows "\<exists>acc'. external_src_loop_st C kvs a s =
           ((case map_err (external_src_entry (env_at C s)) kvs of
               Inl e \<Rightarrow> Some e | Inr r \<Rightarrow> None),
            s\<lparr>st_heap := (st_heap s)[a := Pairs acc']\<rparr>)
         \<and> (\<forall>r. map_err (external_src_entry (env_at C s)) kvs = Inr r \<longrightarrow>
                acc' = acc @ map (\<lambda>kv. (PStr (fst kv), PStr (snd kv))) r)"
  using assms
proof (induction kvs arbitrary: s acc)
  case Nil
  have "s = s\<lparr>st_heap := (st_heap s)[a := Pairs acc]\<rparr>"
    using Nil by (intro heap_same [symmetric]) (simp add: list_update_same_conv)
  then show ?case by (intro exI [of _ acc]) simp
next
  case (Cons kv kvs)
  show ?case
  proof (cases "external_src_entry (env_at C s) kv")
    case (Inl err)
    have "s = s\<lparr>st_heap := (st_heap s)[a := Pairs acc]\<rparr>"
      using Cons.prems by (intro heap_same [symmetric]) (simp add: list_update_same_conv)
    with Inl show ?thesis by (intro exI [of _ acc]) simp
  next
    case (Inr p)
    let ?ps = "[(PStr (fst p), PStr (snd p))]"
    let ?s1 = "s\<lparr>st_heap := (st_heap s)[a := Pairs (acc @ ?ps)]\<rparr>"
    have e: "list_extend a ?ps s = ?s1"
      using Cons.prems by (rule list_extend_at)
    have "a < length (st_heap ?s1)" "st_heap ?s1 ! a = Pairs (acc @ ?ps)"
      using Cons.prems by simp_all
    from Cons.IH [OF this] obtain acc' where
      l: "external_src_loop_st C kvs a ?s1 =
           ((case map_err (external_src_entry (env_at C ?s1)) kvs of
               Inl e \<Rightarrow> Some e | Inr r \<Rightarrow> None),
            ?s1\<lparr>st_heap := (st_heap ?s1)[a := Pairs acc']\<rparr>)"
      and r: "\<forall>r. map_err (external_src_entry (env_at C ?s1)) kvs = Inr r \<longrightarrow>
                acc' = (acc @ ?ps) @ map (\<lambda>kv. (PStr (fst kv), PStr (snd kv))) r"
      by blast
    have "?s1\<lparr>st_heap := (st_heap ?s1)[a := Pairs acc']\<rparr> =
        s\<lparr>st_heap := (st_heap s)[a := Pairs acc']\<rparr>"
      by simp
    with l e Inr r show ?thesis
      by (intro exI [of _ acc']) (simp split: sum.splits)
  qed
qed

lemma get_external_src_st_spec:
  "\<exists>cells. get_external_src_st C s =
        ((case get_external_src (env_at C s) (st_self s) of
            Inl e \<Rightarrow> Inl e | Inr r \<Rightarrow> Inr (length (st_heap s))),
         s\<lparr>st_heap := st_heap s @ cells\<rparr>)
      \<and> (\<forall>r. get_external_src (env_at C s) (st_self s) = Inr r \<longrightarrow>
             cells = [Pairs (map (\<lambda>kv. (PStr (fst kv), PStr (snd kv))) r)])"
proof (cases "get_mapping_node (env_at C s) (conf (st_self s)) ''external_src''")
  case (Inl e)
  then show ?thesis
    by (intro exI [of _ "[]"]) (simp add: get_external_src_st_def get_external_src_def)
next
  case (Inr node)
  show ?thesis
  proof (cases node)
    case None
    with Inr show ?thesis
      by (intro exI [of _ "[Pairs []]"])
         (simp add: get_external_src_st_def get_external_src_def new_list_def)
  next
    case (Some n)
    show ?thesis
    proof (cases n)
      case (ScalarNode m str)
      with Inr Some show ?thesis
        by (intro exI [of _ "[Pairs []]"])
           (simp add: get_external_src_st_def get_external_src_def new_list_def)
    next
      case (SequenceNode m xs)
      with Inr Some show ?thesis
        by (intro exI [of _ "[Pairs []]"])
           (simp add: get_external_src_st_def get_external_src_def new_list_def)
    next
      case (MappingNode m kvs)
      let ?s1 = "s\<lparr>st_heap := st_heap s @ [Pairs []]\<rparr>"
      let ?a = "length (st_heap s)"
      have "?a < length (st_heap ?s1)" "st_heap ?s1 ! ?a = Pairs []" by simp_all
      from external_src_loop_st_spec [OF this, of C kvs] obtain acc' where
        l: "external_src_loop_st C kvs ?a ?s1 =
           ((case map_err (external_src_entry (env_at C ?s1)) kvs of
               Inl e \<Rightarrow> Some e | Inr r \<Rightarrow> None),
            ?s1\<lparr>st_heap := (st_heap ?s1)[?a := Pairs acc']\<rparr>)"
        and r: "\<forall>r. map_err (external_src_entry (env_at C ?s1)) kvs = Inr r \<longrightarrow>
                acc' = [] @ map (\<lambda>kv. (PStr (fst kv), PStr (snd kv))) r"
        by blast
      have "?s1\<lparr>st_heap := (st_heap ?s1)[?a := Pairs acc']\<rparr> =
          s\<lparr>st_heap := st_heap s @ [Pairs acc']\<rparr>"
        by simp
      with l r Inr Some MappingNode show ?thesis
        by (intro exI [of _ "[Pairs acc']"])
           (simp add: get_external_src_st_def get_external_src_def new_list_def split: sum.splits)
    qed
  qed
qed

lemma declared_st_spec:
  "\<exists>c. (case node of
          None \<Rightarrow> (let (a, s1) = new_list (Pairs []) s in (Inr a, s1))
        | Some n \<Rightarrow> flatten_yocto_conf_st n s) =
        ((case (case node of None \<Rightarrow> Inr [] | Some n \<Rightarrow> flatten_yocto_conf n) of
            Inl e \<Rightarrow> Inl e | Inr r \<Rightarrow> Inr (length (st_heap s))),
         s\<lparr>st_heap := st_heap s @ [Pairs c]\<rparr>)
      \<and> (\<forall>r. (case node of None \<Rightarrow> Inr [] | Some n \<Rightarrow> flatten_yocto_conf n) = Inr r \<longrightarrow> c = r)"
proof (cases node)
  case None
  then show ?thesis by (intro exI [of _ "[]"]) (simp add: new_list_def)
next
  case (Some n)
  with flatten_yocto_conf_st_spec [of n s] show ?thesis by simp
qed

lemma gen_local_conf_st_spec:
  "\<exists>cells. gen_local_conf_st C s =
        ((case gen_local_conf (env_at C s) (st_self s) of
            Inl e \<Rightarrow> Inl e | Inr r \<Rightarrow> Inr (length (st_heap s))),
         s\<lparr>st_heap := st_heap s @ cells\<rparr>)
      \<and> (\<forall>r. gen_local_conf (env_at C s) (st_self s) = Inr r \<longrightarrow>
             pairs_at (length (st_heap s)) (s\<lparr>st_heap := st_heap s @ cells\<rparr>) = r)"
proof (cases "get_sequence_node (env_at C s) (conf (st_self s)) ''conf''")
  case (Inl e)
  then show ?thesis
    by (intro exI [of _ "[]"]) (simp add: gen_local_conf_st_def gen_local_conf_def)
next
  case (Inr node)
  from declared_st_spec [where node = node and s = s] obtain c where
    d: "(case node of
          None \<Rightarrow> (let (a, s1) = new_list (Pairs []) s in (Inr a, s1))
        | Some n \<Rightarrow> flatten_yocto_conf_st n s) =
        ((case (case node of None \<Rightarrow> Inr [] | Some n \<Rightarrow> flatten_yocto_conf n) of
            Inl e \<Rightarrow> Inl e | Inr r \<Rightarrow> Inr (length (st_heap s))),
         s\<lparr>st_heap := st_heap s @ [Pairs c]\<rparr>)"
    and dc: "\<forall>r. (case node of None \<Rightarrow> Inr [] | Some n \<Rightarrow> flatten_yocto_conf n) = Inr r \<longrightarrow> c = r"
    by blast
  show ?thesis
  proof (cases "case node of None \<Rightarrow> Inr [] | Some n \<Rightarrow> flatten_yocto_conf n")
    case (Inl e)
    with Inr d show ?thesis
      by (intro exI [of _ "[Pairs c]"]) (simp add: gen_local_conf_st_def gen_local_conf_def)
  next
    case lc: (Inr declared)
    with dc have c: "c = declared" by simp
    let ?s1 = "s\<lparr>st_heap := st_heap s @ [Pairs declared]\<rparr>"
    from get_external_src_st_spec [of C ?s1] obtain cells where
      x0: "get_external_src_st C ?s1 =
        ((case get_external_src (env_at C ?s1) (st_self ?s1) of
            Inl e \<Rightarrow> Inl e | Inr r \<Rightarrow> Inr (length (st_heap ?s1))),
         ?s1\<lparr>st_heap := st_heap ?s1 @ cells\<rparr>)"
      and xc0: "\<forall>r. get_external_src (env_at C ?s1) (st_self ?s1) = Inr r \<longrightarrow>
             cells = [Pairs (map (\<lambda>kv. (PStr (fst kv), PStr (snd kv))) r)]"
      by blast
    have x: "get_external_src_st C ?s1 =
        ((case get_external_src (env_at C s) (st_self s) of
            Inl e \<Rightarrow> Inl e | Inr r \<Rightarrow> Inr (Suc (length (st_heap s)))),
         ?s1\<lparr>st_heap := st_heap ?s1 @ cells\<rparr>)"
      using x0 by (simp split: sum.splits)
    have xc: "\<forall>r. get_external_src (env_at C s) (st_self s) = Inr r \<longrightarrow>
             cells = [Pairs (map (\<lambda>kv. (PStr (fst kv), PStr (snd kv))) r)]"
      using xc0 by simp
    show ?thesis
    proof (cases "get_external_src (env_at C s) (st_self s)")
      case (Inl e)
      with Inr d lc c x show ?thesis
        by (intro exI [of _ "Pairs declared # cells"])
           (simp add: gen_local_conf_st_def gen_local_conf_def)
    next
      case ext: (Inr r)
      with xc have cells: "cells = [Pairs (map (\<lambda>kv. (PStr (fst kv), PStr (snd kv))) r)]"
        by simp
      let ?e = "map (\<lambda>kv. (PStr (fst kv), PStr (snd kv))) r"
      let ?s2 = "s\<lparr>st_heap := st_heap s @ [Pairs declared, Pairs ?e]\<rparr>"
      have s2: "?s1\<lparr>st_heap := st_heap ?s1 @ cells\<rparr> = ?s2"
        by (simp add: cells)
      have p: "pairs_at (Suc (length (st_heap s))) ?s2 = ?e"
        by (simp add: pairs_at_def nth_append)
      have q: "pairs_at (length (st_heap s)) ?s2 = declared"
        by (simp add: pairs_at_def nth_append)
      have le: "list_extend (length (st_heap s)) ?e ?s2 =
          s\<lparr>st_heap := st_heap s @ [Pairs (declared @ ?e), Pairs ?e]\<rparr>"
        by (simp add: list_extend_def q list_update_append)
      have g: "gen_local_conf (env_at C s) (st_self s) = Inr (declared @ ?e)"
        using Inr lc ext by (simp add: gen_local_conf_def)
      have r: "gen_local_conf_st C s =
          (Inr (length (st_heap s)), s\<lparr>st_heap := st_heap s @ [Pairs (declared @ ?e), Pairs ?e]\<rparr>)"
        using Inr d lc c x ext s2 p le by (simp add: gen_local_conf_st_def)
      show ?thesis
        by (intro exI [of _ "[Pairs (declared @ ?e), Pairs ?e]"])
           (simp add: r g pairs_at_def nth_append)
    qed
  qed
qed

subsection \<open>The stateful run against the run on values\<close>

lemma st_simps [simp]:
  "st_self (st_build outs r ins vars s) = st_self s"
  "st_cwd (st_build outs r ins vars s) = st_cwd s"
  "st_heap (st_build outs r ins vars s) = st_heap s"
  "st_generator (st_build outs r ins vars s) = build (st_generator s) outs r ins vars"
  "env_at C (st_build outs r ins vars s) = env_at C s"
  "st_self (st_newline s) = st_self s"
  "st_cwd (st_newline s) = st_cwd s"
  "st_heap (st_newline s) = st_heap s"
  "st_generator (st_newline s) = newline (st_generator s)"
  "env_at C (st_newline s) = env_at C s"
  by (simp_all add: st_build_def st_newline_def)

lemma gen_targets_st_eq:
  "gen_targets_st C s =
     (case gen_targets (env_at C s) (st_self s) of
        Inl e \<Rightarrow> (Inl e, s)
      | Inr ts \<Rightarrow> (Inr (length (st_heap s)), s\<lparr>st_heap := st_heap s @ [Strs ts]\<rparr>))"
  by (simp add: gen_targets_st_def new_list_def split: sum.splits)

lemma gen_deps_st_eq:
  "gen_deps_st C s =
     (case gen_deps (env_at C s) (st_self s) of
        Inl e \<Rightarrow> (Inl e, s)
      | Inr ds \<Rightarrow> (Inr (length (st_heap s)), s\<lparr>st_heap := st_heap s @ [Strs (butlast ds)]\<rparr>))"
  by (auto simp: gen_deps_st_def gen_deps_def new_list_def split: sum.splits option.splits)

lemma gen_deps_last:
  "gen_deps E b = Inr ds \<Longrightarrow> butlast ds @ [local_conf_target b] = ds"
  by (auto simp: gen_deps_def split: sum.splits option.splits)

lemma local_conf_st_fst:
  "fst (gen_local_conf_st C s) =
     (case gen_local_conf (env_at C s) (st_self s) of
        Inl e \<Rightarrow> Inl e | Inr r \<Rightarrow> Inr (length (st_heap s)))"
  using gen_local_conf_st_spec [of C s] by auto

lemma local_conf_st_frame [simp]:
  "st_self (snd (gen_local_conf_st C s)) = st_self s"
  "st_cwd (snd (gen_local_conf_st C s)) = st_cwd s"
  "st_generator (snd (gen_local_conf_st C s)) = st_generator s"
  "env_at C' (snd (gen_local_conf_st C s)) = env_at C' s"
  using gen_local_conf_st_spec [of C s] by (auto simp: env_at_def)

lemma local_conf_st_heap:
  "\<exists>cells. st_heap (snd (gen_local_conf_st C s)) = st_heap s @ cells"
  using gen_local_conf_st_spec [of C s] by auto

lemma local_conf_st_pairs:
  "gen_local_conf (env_at C s) (st_self s) = Inr r \<Longrightarrow>
   pairs_at (length (st_heap s)) (snd (gen_local_conf_st C s)) = r"
  using gen_local_conf_st_spec [of C s] by auto

lemma gen_build_st_spec:
  "fst (gen_build_st C s) = fst (gen_build (env_at C s) (st_self s) (st_generator s))
   \<and> st_generator (snd (gen_build_st C s)) =
       snd (gen_build (env_at C s) (st_self s) (st_generator s))
   \<and> st_self (snd (gen_build_st C s)) = st_self s
   \<and> st_cwd (snd (gen_build_st C s)) = st_cwd s
   \<and> take (length (st_heap s)) (st_heap (snd (gen_build_st C s))) = st_heap s"
proof (cases "gen_layers (env_at C s) (st_self s)")
  case (Inl e)
  then show ?thesis
    by (simp add: gen_build_st_def gen_build_def Let_def)
next
  case layers: (Inr layers)
  let ?s2 = "st_build [layers_stamp (env_at C s) (st_self s)] ''yocto_add_layers''
               [env_target (st_self s)] (common_variables (st_self s) @ [(''layers'', layers)])
               (st_build [env_target (st_self s)] ''yocto_init_env'' (src_stamps (st_self s))
                  (common_variables (st_self s)) s)"
  obtain cells where h: "st_heap (snd (gen_local_conf_st C ?s2)) = st_heap s @ cells"
    using local_conf_st_heap [of C ?s2] by auto
  have f: "fst (gen_local_conf_st C ?s2) =
     (case gen_local_conf (env_at C s) (st_self s) of
        Inl e \<Rightarrow> Inl e | Inr r \<Rightarrow> Inr (length (st_heap s)))"
    by (simp add: local_conf_st_fst split: sum.splits)
  show ?thesis
  proof (cases "gen_local_conf (env_at C s) (st_self s)")
    case (Inl e)
    with layers f h show ?thesis
      by (simp add: gen_build_st_def gen_build_def Let_def gen_local_conf_lines_def
            case_prod_beta)
  next
    case lc: (Inr lc)
    have p: "pairs_at (length (st_heap s)) (snd (gen_local_conf_st C ?s2)) = lc"
      using local_conf_st_pairs [of C ?s2 lc] lc by simp
    have ll: "gen_local_conf_lines (env_at C s) (st_self s) = map_err conf_line lc"
      using lc by (simp add: gen_local_conf_lines_def)
    show ?thesis
    proof (cases "map_err conf_line lc")
      case (Inl e)
      with layers f h lc p ll show ?thesis
        by (simp add: gen_build_st_def gen_build_def Let_def case_prod_beta)
    next
      case lines: (Inr lines)
      show ?thesis
      proof (cases "gen_targets (env_at C s) (st_self s)")
        case (Inl e)
        with layers f h lc p ll lines show ?thesis
          by (simp add: gen_build_st_def gen_build_def Let_def case_prod_beta
                gen_targets_st_eq)
      next
        case ts: (Inr ts)
        show ?thesis
        proof (cases "gen_deps (env_at C s) (st_self s)")
          case (Inl e)
          with layers f h lc p ll lines ts show ?thesis
            by (simp add: gen_build_st_def gen_build_def Let_def case_prod_beta
                  gen_targets_st_eq gen_deps_st_eq)
        next
          case ds: (Inr deps)
          note dd = gen_deps_last [OF ds]
          show ?thesis
          proof (cases "get_mandatory_str_value (env_at C s) (conf (st_self s)) ''build_target''")
            case (Inl e)
            with layers f h lc p ll lines ts ds show ?thesis
              by (simp add: gen_build_st_def gen_build_def Let_def case_prod_beta
                    gen_targets_st_eq gen_deps_st_eq list_append_str_def)
          next
            case (Inr tm)
            with layers f h lc p ll lines ts ds dd show ?thesis
              by (simp add: gen_build_st_def gen_build_def Let_def case_prod_beta
                    gen_targets_st_eq gen_deps_st_eq list_append_str_def strs_at_def
                    nth_append)
          qed
        qed
      qed
    qed
  qed
qed

text \<open>
  The stateful run on the full sample instance: the four list objects it leaves in the
  heap are \<^verbatim>\<open>local_conf\<close> (extended in place by the external sources), the list
  \<^verbatim>\<open>_get_external_src\<close> returned, \<^verbatim>\<open>targets\<close>, and \<^verbatim>\<open>deps\<close> with the
  configuration marker appended.
\<close>

lemma gen_build_st_full:
  "st_heap (snd (gen_build_st (\<lambda>d. sample_env)
     \<lparr>st_self = builder_full, st_cwd = ''/home/user'', st_heap = [], st_generator = []\<rparr>)) =
   [Pairs [(PStr ''FOO'', PStr ''1''), (PStr ''BAR'', PStr ''2''), (PStr ''BAZ'', PStr ''3''),
           (PStr ''PATH'', PStr ''$HOME/bin''),
           (PStr ''EXTERNALSRC_pn-mylib'', PStr ''/home/user/srcs/mylib'')],
    Pairs [(PStr ''EXTERNALSRC_pn-mylib'', PStr ''/home/user/srcs/mylib'')],
    Strs [''/yocto/work/tmp/image.wic''],
    Strs [''/yocto/extra/file'', ''/yocto/work/conf/moulin.conf'']]"
  by (simp add: gen_build_st_def Let_def st_build_def st_newline_def gen_local_conf_st_def
      get_external_src_st_def gen_targets_st_def gen_deps_st_def new_list_def list_extend_def
      list_append_str_def strs_at_def pairs_at_def flatten_yocto_conf_st_def env_at_def
      sample_defs builder_defs path_defs)

subsection \<open>Two calls on one instance\<close>

text \<open>
  Claim C9. \<open>gen_build\<close> is idempotent and deterministic, on the model in which the
  instance, the working directory, the writer and the list objects are state. A call
  leaves the attributes of \<^verbatim>\<open>self\<close> and the working directory as they were and
  changes no list object that existed before it (the lists it mutates are the ones it
  created); so a second call, made in the state the first one left, returns the same
  value (the same list of targets, or the same error) and appends to the writer exactly
  the declarations the first call appended, in the same order. What a call returns and
  appends is what the run on values \<open>gen_build\<close> returns and appends. This holds for
  every instance, valid or not.
\<close>

theorem gen_build_idempotent:
  "st_self (snd (gen_build_st C s)) = st_self s
   \<and> st_cwd (snd (gen_build_st C s)) = st_cwd s
   \<and> take (length (st_heap s)) (st_heap (snd (gen_build_st C s))) = st_heap s
   \<and> fst (gen_build_st C (snd (gen_build_st C s))) = fst (gen_build_st C s)
   \<and> (\<exists>ds. st_generator (snd (gen_build_st C s)) = st_generator s @ ds
          \<and> st_generator (snd (gen_build_st C (snd (gen_build_st C s)))) =
              (st_generator s @ ds) @ ds)
   \<and> gen_build (env_at C s) (st_self s) (st_generator s) =
       (fst (gen_build_st C s), st_generator (snd (gen_build_st C s)))"
proof -
  let ?s' = "snd (gen_build_st C s)"
  let ?E = "env_at C s"
  let ?ds = "snd (gen_build ?E (st_self s) [])"
  note a = gen_build_st_spec [of C s]
  note b = gen_build_st_spec [of C ?s']
  from a have e: "env_at C ?s' = ?E" by (simp add: env_at_def)
  have w1: "gen_build ?E (st_self s) (st_generator s) =
      (fst (gen_build ?E (st_self s) []), st_generator s @ ?ds)"
    by (rule gen_build_writer)
  have w2: "gen_build ?E (st_self s) (st_generator s @ ?ds) =
      (fst (gen_build ?E (st_self s) []), (st_generator s @ ?ds) @ ?ds)"
    by (rule gen_build_writer)
  have g1: "st_generator ?s' = st_generator s @ ?ds"
    using a w1 by simp
  have f1: "fst (gen_build_st C s) = fst (gen_build ?E (st_self s) [])"
    using a w1 by simp
  have g2: "st_generator (snd (gen_build_st C ?s')) = (st_generator s @ ?ds) @ ?ds"
    using a b e g1 w2 by simp
  have f2: "fst (gen_build_st C ?s') = fst (gen_build ?E (st_self s) [])"
    using a b e g1 w2 by simp
  have r: "gen_build ?E (st_self s) (st_generator s) =
       (fst (gen_build_st C s), st_generator ?s')"
    using a by (simp add: prod_eq_iff)
  have x: "\<exists>ds. st_generator ?s' = st_generator s @ ds
          \<and> st_generator (snd (gen_build_st C ?s')) = (st_generator s @ ds) @ ds"
    using g1 g2 by (intro exI [of _ ?ds] conjI)
  from a f1 f2 x r show ?thesis by simp
qed

end
